theory Spec2Isabelle
  imports Complex_Main
begin

section \<open>Membrane analysis: per-frame spatial binning and cross-frame aggregation\<close>

text \<open>
  A shallow embedding of \<^verbatim>\<open>Scripts/Membrane_analysis.py\<close>, class
  \<^verbatim>\<open>Membrane_properties\<close>: the constructor, \<^verbatim>\<open>Get_info\<close> and
  \<^verbatim>\<open>Prep4plot\<close>.

  Conventions of the model.
  \<^item> Coordinates, cell sizes, box lengths, densities: exact rationals (\<open>rat\<close>) in place of
    the floating point numbers of the source; rounding of a float division is not modelled.
  \<^item> Counts in numpy integer arrays: \<open>int\<close> (64-bit in the source; a cell would need more
    than \<open>2^63\<close> atoms to wrap).
  \<^item> A numpy array of shape \<open>(nz, nx, ny)\<close>: a nested list, indexed \<open>v ! iz ! ix ! iy\<close>.
  \<^item> \<^verbatim>\<open>print\<close>: the printed diagnostics are collected in a list.
  \<^item> The trajectory reader, the atom selections and the box re-centering (\<^verbatim>\<open>pbc\<close>,
    \<^verbatim>\<open>pbc_plane\<close>) are collaborators: a frame arrives as the four selected atom
    lists, already re-centered, together with its box dimensions.
\<close>

subsection \<open>Python and numpy primitives\<close>

datatype py_error =
  ZeroDivisionError | OverflowError | ValueError | IndexError | AttributeError | TypeError

text \<open>\<^verbatim>\<open>int(x)\<close> on a float: the fractional part is dropped (truncation toward zero).\<close>

definition py_int :: "rat \<Rightarrow> int" where
  "py_int r = (if 0 \<le> r then \<lfloor>r\<rfloor> else \<lceil>r\<rceil>)"

text \<open>
  Indexing one axis of length \<open>n\<close> with a Python integer: \<open>0 \<le> i < n\<close> is taken as it is,
  \<open>-n \<le> i < 0\<close> counts from the end, everything else raises IndexError (\<open>None\<close>).
\<close>

definition np_index :: "nat \<Rightarrow> int \<Rightarrow> nat option" where
  "np_index n i =
     (if 0 \<le> i \<and> i < int n then Some (nat i)
      else if - int n \<le> i \<and> i < 0 then Some (nat (i + int n))
      else None)"

type_synonym shape = "nat \<times> nat \<times> nat"
type_synonym cell = "nat \<times> nat \<times> nat"
type_synonym vol = "int list list list"

text \<open>\<^verbatim>\<open>a[iz, ix, iy]\<close> on an array of shape \<open>(nz, nx, ny)\<close>.\<close>

definition np_index3 :: "shape \<Rightarrow> int \<times> int \<times> int \<Rightarrow> cell option" where
  "np_index3 sh idx =
     (case sh of (nz, nx, ny) \<Rightarrow>
      case idx of (iz, ix, iy) \<Rightarrow>
        (case np_index nz iz of None \<Rightarrow> None
         | Some z \<Rightarrow>
        (case np_index nx ix of None \<Rightarrow> None
         | Some x \<Rightarrow>
        (case np_index ny iy of None \<Rightarrow> None
         | Some y \<Rightarrow> Some (z, x, y)))))"

definition zeros3 :: "shape \<Rightarrow> vol" where
  "zeros3 sh = (case sh of (nz, nx, ny) \<Rightarrow> replicate nz (replicate nx (replicate ny 0)))"

definition get3 :: "vol \<Rightarrow> cell \<Rightarrow> int" where
  "get3 v k = (case k of (z, x, y) \<Rightarrow> v ! z ! x ! y)"

definition upd3 :: "vol \<Rightarrow> cell \<Rightarrow> (int \<Rightarrow> int) \<Rightarrow> vol" where
  "upd3 v k f =
     (case k of (z, x, y) \<Rightarrow> v[z := (v ! z)[x := (v ! z ! x)[y := f (v ! z ! x ! y)]]])"

text \<open>\<^verbatim>\<open>np.count_nonzero\<close> of a two-dimensional slab.\<close>

definition count_nonzero :: "int list list \<Rightarrow> nat" where
  "count_nonzero slab = length (filter (\<lambda>c. c \<noteq> 0) (concat slab))"

subsection \<open>Atoms and the cell index\<close>

record atom =
  resid :: int
  resname :: string
  pos_x :: rat
  pos_y :: rat
  pos_z :: rat

text \<open>
  Lines 351-353 (and the same three lines in every other loop):
  \<^verbatim>\<open>ix = (int)(at[0]/self.dz); iy = (int)(at[1]/self.dz); iz = (int)(at[2]/self.dh)\<close>.
  The triple is returned in the order in which it indexes the arrays, \<open>(iz, ix, iy)\<close>.
  The cell sizes are nonzero whenever this runs: the constructor divides by \<open>d\<close> and
  \<^verbatim>\<open>Get_info\<close> divides a box length by \<open>dh\<close> before the first frame.
\<close>

definition cell_index :: "rat \<Rightarrow> rat \<Rightarrow> atom \<Rightarrow> int \<times> int \<times> int" where
  "cell_index dz dh t =
     (py_int (pos_z t / dh), py_int (pos_x t / dz), py_int (pos_y t / dz))"

subsection \<open>One frame: the occupancy volumes (body of the frame loop of \<^verbatim>\<open>Get_info\<close>)\<close>

text \<open>
  A printed warning: its text, the residue name, the position \<open>at\<close>, the grid size as
  printed \<open>(nx, ny, nz)\<close> and the computed index as printed \<open>(ix, iy, iz)\<close>.
\<close>

datatype warning =
  Warn (w_text: string) (w_resname: string) (w_at: "rat \<times> rat \<times> rat")
       (w_size: "nat \<times> nat \<times> nat") (w_index: "int \<times> int \<times> int")

definition mk_warning :: "string \<Rightarrow> shape \<Rightarrow> atom \<Rightarrow> int \<times> int \<times> int \<Rightarrow> warning" where
  "mk_warning txt sh t idx =
     (case sh of (nz, nx, ny) \<Rightarrow>
      case idx of (iz, ix, iy) \<Rightarrow>
        Warn txt (resname t) (pos_x t, pos_y t, pos_z t) (nx, ny, nz) (ix, iy, iz))"

record frame =
  dimensions :: "rat \<times> rat \<times> rat"
  u_mem_sel_m :: "atom list"
  u_mem_sel_m_a :: "atom list"
  u_mem_sel_p :: "atom list"
  u_mem_sel_w :: "atom list"

text \<open>
  Lines 349-357, the loop over all membrane atoms when the two selections differ:
  \<^verbatim>\<open>try: mem_slab0[iz,ix,iy] += 1  except: print("Warning: Membrane is out of the box ...")\<close>.
\<close>

definition mem_all_step ::
  "shape \<Rightarrow> rat \<Rightarrow> rat \<Rightarrow> vol \<times> warning list \<Rightarrow> atom \<Rightarrow> vol \<times> warning list" where
  "mem_all_step sh dz dh s t =
     (case s of (mem_slab0, out) \<Rightarrow>
      let idx = cell_index dz dh t in
      (case np_index3 sh idx of
         Some k \<Rightarrow> (upd3 mem_slab0 k (\<lambda>c. c + 1), out)
       | None \<Rightarrow>
           (mem_slab0,
            out @ [mk_warning ''Warning: Membrane is out of the box  residue '' sh t idx])))"

text \<open>
  Lines 358-371, the loop over the head-subset atoms when the two selections differ. Two
  separate \<^verbatim>\<open>try\<close> blocks, both with \<^verbatim>\<open>except: pass\<close>: the first increments
  \<^verbatim>\<open>mem_resid_slab0[iz,ix,iy]\<close>; the second reads \<^verbatim>\<open>resid_list[iz]\<close>, and if the
  residue id is new there, appends it to \<^verbatim>\<open>resid_list[iz]\<close> and then to
  \<^verbatim>\<open>resid_list_zx[iz][ix]\<close>. An IndexError of the last indexing leaves the first
  append in place. \<open>iy\<close> is not used by the second block.
\<close>

definition head_step ::
  "shape \<Rightarrow> rat \<Rightarrow> rat \<Rightarrow> vol \<times> int list list \<times> int list list list \<Rightarrow> atom
     \<Rightarrow> vol \<times> int list list \<times> int list list list" where
  "head_step sh dz dh s t =
     (case s of (mem_resid_slab0, resid_list, resid_list_zx) \<Rightarrow>
      let n = resid t;
          idx = cell_index dz dh t;
          iz = fst idx;
          ix = fst (snd idx);
          v = (case np_index3 sh idx of
                 Some k \<Rightarrow> upd3 mem_resid_slab0 k (\<lambda>c. c + 1)
               | None \<Rightarrow> mem_resid_slab0)
      in
      (case np_index (length resid_list) iz of
         None \<Rightarrow> (v, resid_list, resid_list_zx)
       | Some z \<Rightarrow>
           (if n \<in> set (resid_list ! z) then (v, resid_list, resid_list_zx)
            else
              let resid_list' = resid_list[z := resid_list ! z @ [n]] in
              (case np_index (length resid_list_zx) iz of
                 None \<Rightarrow> (v, resid_list', resid_list_zx)
               | Some z' \<Rightarrow>
              (case np_index (length (resid_list_zx ! z')) ix of
                 None \<Rightarrow> (v, resid_list', resid_list_zx)
               | Some x \<Rightarrow>
                   (v, resid_list',
                    resid_list_zx[z' := (resid_list_zx ! z')[x := resid_list_zx ! z' ! x @ [n]]]))))))"

text \<open>
  Lines 373-384, the single loop when the two selections are the same string: one
  \<^verbatim>\<open>try\<close> block holds the increment of \<^verbatim>\<open>mem_slab0\<close> and the registration of the
  residue id, and its \<^verbatim>\<open>except\<close> prints the warning.
\<close>

definition mem_same_step ::
  "shape \<Rightarrow> rat \<Rightarrow> rat \<Rightarrow> vol \<times> int list list \<times> int list list list \<times> warning list \<Rightarrow> atom
     \<Rightarrow> vol \<times> int list list \<times> int list list list \<times> warning list" where
  "mem_same_step sh dz dh s t =
     (case s of (mem_slab0, resid_list, resid_list_zx, out) \<Rightarrow>
      let n = resid t;
          idx = cell_index dz dh t;
          iz = fst idx;
          ix = fst (snd idx);
          w = mk_warning ''Warning: Membrane is out of the box: residue '' sh t idx
      in
      (case np_index3 sh idx of
         None \<Rightarrow> (mem_slab0, resid_list, resid_list_zx, out @ [w])
       | Some k \<Rightarrow>
           let v = upd3 mem_slab0 k (\<lambda>c. c + 1) in
           (case np_index (length resid_list) iz of
              None \<Rightarrow> (v, resid_list, resid_list_zx, out @ [w])
            | Some z \<Rightarrow>
                (if n \<in> set (resid_list ! z) then (v, resid_list, resid_list_zx, out)
                 else
                   let resid_list' = resid_list[z := resid_list ! z @ [n]] in
                   (case np_index (length resid_list_zx) iz of
                      None \<Rightarrow> (v, resid_list', resid_list_zx, out @ [w])
                    | Some z' \<Rightarrow>
                   (case np_index (length (resid_list_zx ! z')) ix of
                      None \<Rightarrow> (v, resid_list', resid_list_zx, out @ [w])
                    | Some x \<Rightarrow>
                        (v, resid_list',
                         resid_list_zx[z' := (resid_list_zx ! z')[x := resid_list_zx ! z' ! x @ [n]]],
                         out)))))))"

text \<open>
  Lines 338-384: the membrane part of one frame. It returns \<^verbatim>\<open>mem_slab0\<close>,
  \<^verbatim>\<open>mem_resid_slab0\<close>, \<^verbatim>\<open>resid_list\<close>, \<^verbatim>\<open>resid_list_zx\<close> and the warnings.
\<close>

definition membrane_pass ::
  "string \<Rightarrow> string \<Rightarrow> shape \<Rightarrow> rat \<Rightarrow> rat \<Rightarrow> frame
     \<Rightarrow> vol \<times> vol \<times> int list list \<times> int list list list \<times> warning list" where
  "membrane_pass sel_m sel_m_a sh dz dh fr =
     (case sh of (nz, nx, ny) \<Rightarrow>
      let mem_slab0 = zeros3 sh;
          mem_resid_slab0 = zeros3 sh;
          resid_list = replicate nz [];
          resid_list_zx = replicate nz (replicate nx [])
      in
      if sel_m_a \<noteq> sel_m then
        (case foldl (mem_all_step sh dz dh) (mem_slab0, []) (u_mem_sel_m_a fr) of
           (m, out) \<Rightarrow>
         case foldl (head_step sh dz dh) (mem_resid_slab0, resid_list, resid_list_zx)
                (u_mem_sel_m fr) of
           (mr, rl, rlzx) \<Rightarrow> (m, mr, rl, rlzx, out))
      else
        (case foldl (mem_same_step sh dz dh) (mem_slab0, resid_list, resid_list_zx, [])
                (u_mem_sel_m fr) of
           (m, rl, rlzx, out) \<Rightarrow> (m, mem_resid_slab0, rl, rlzx, out)))"

text \<open>
  Lines 386-395: a protein atom is counted only where \<^verbatim>\<open>mem_slab0[iz,ix,iy] == 0\<close>;
  an IndexError of that read prints the warning.
\<close>

definition prot_step ::
  "shape \<Rightarrow> rat \<Rightarrow> rat \<Rightarrow> vol \<Rightarrow> vol \<times> warning list \<Rightarrow> atom \<Rightarrow> vol \<times> warning list" where
  "prot_step sh dz dh mem_slab0 s t =
     (case s of (prot_slab1, out) \<Rightarrow>
      let idx = cell_index dz dh t in
      (case np_index3 sh idx of
         Some k \<Rightarrow>
           (if get3 mem_slab0 k = 0 then (upd3 prot_slab1 k (\<lambda>c. c + 1), out)
            else (prot_slab1, out))
       | None \<Rightarrow>
           (prot_slab1,
            out @ [mk_warning ''Warning: Protein is out of the box - residue '' sh t idx])))"

text \<open>
  Lines 397-407: a water atom marks its cell with 1 only where both other volumes are 0;
  an IndexError is passed over silently.
\<close>

definition wat_step :: "shape \<Rightarrow> rat \<Rightarrow> rat \<Rightarrow> vol \<Rightarrow> vol \<Rightarrow> vol \<Rightarrow> atom \<Rightarrow> vol" where
  "wat_step sh dz dh mem_slab0 prot_slab1 wat_slab2 t =
     (case np_index3 sh (cell_index dz dh t) of
        Some k \<Rightarrow>
          if get3 prot_slab1 k = 0 \<and> get3 mem_slab0 k = 0 then upd3 wat_slab2 k (\<lambda>c. 1)
          else wat_slab2
      | None \<Rightarrow> wat_slab2)"

text \<open>
  Lines 417-419: \<^verbatim>\<open>area1[iz] = np.count_nonzero(slab[iz])*self.dz*self.dz\<close>, stored
  into an array created with \<^verbatim>\<open>dtype = int\<close>: the product is cut to an integer.
\<close>

definition slab_area :: "rat \<Rightarrow> int list list \<Rightarrow> int" where
  "slab_area dz slab = py_int (of_nat (count_nonzero slab) * dz * dz)"

record frame_out =
  fo_mem_slab :: vol
  fo_mem_resid_slab :: vol
  fo_prot_slab :: vol
  fo_wat_slab :: vol
  fo_prot_area :: "int list"
  fo_mem_area :: "int list"
  fo_wat_area :: "int list"
  fo_tot_area :: "int list"
  fo_resid_array :: "int list"
  fo_resid_array_zx :: "int list list"
  fo_out :: "warning list"

text \<open>Lines 338-423: everything one iteration of the frame loop computes.\<close>

definition slab_accumulate ::
  "string \<Rightarrow> string \<Rightarrow> shape \<Rightarrow> rat \<Rightarrow> rat \<Rightarrow> frame \<Rightarrow> frame_out" where
  "slab_accumulate sel_m sel_m_a sh dz dh fr =
     (case sh of (nz, nx, ny) \<Rightarrow>
      case membrane_pass sel_m sel_m_a sh dz dh fr of
        (mem_slab0, mem_resid_slab0, resid_list, resid_list_zx, out_m) \<Rightarrow>
      case foldl (prot_step sh dz dh mem_slab0) (zeros3 sh, out_m) (u_mem_sel_p fr) of
        (prot_slab1, out_p) \<Rightarrow>
      let wat_slab2 = foldl (wat_step sh dz dh mem_slab0 prot_slab1) (zeros3 sh) (u_mem_sel_w fr);
          prot_area1 = map (\<lambda>iz. slab_area dz (prot_slab1 ! iz)) [0..<nz];
          mem_area1 = map (\<lambda>iz. slab_area dz (mem_slab0 ! iz)) [0..<nz];
          wat_area1 = map (\<lambda>iz. slab_area dz (wat_slab2 ! iz)) [0..<nz];
          tot_area1 = map (\<lambda>iz. prot_area1 ! iz + mem_area1 ! iz + wat_area1 ! iz) [0..<nz];
          resid_array0 = map (\<lambda>iz. int (length (resid_list ! iz))) [0..<nz];
          resid_array_zx0 =
            map (\<lambda>iz. map (\<lambda>ix. int (length (resid_list_zx ! iz ! ix))) [0..<nx]) [0..<nz]
      in
      \<lparr> fo_mem_slab = mem_slab0, fo_mem_resid_slab = mem_resid_slab0,
        fo_prot_slab = prot_slab1, fo_wat_slab = wat_slab2,
        fo_prot_area = prot_area1, fo_mem_area = mem_area1, fo_wat_area = wat_area1,
        fo_tot_area = tot_area1, fo_resid_array = resid_array0,
        fo_resid_array_zx = resid_array_zx0, fo_out = out_p \<rparr>)"

subsection \<open>The object and its constructor\<close>

text \<open>
  The attributes of a \<^verbatim>\<open>Membrane_properties\<close> object that the binning and the
  aggregation read or write. \<^verbatim>\<open>self.nz\<close>, \<^verbatim>\<open>self.nx\<close>, \<^verbatim>\<open>self.ny\<close> do not
  exist before \<^verbatim>\<open>Get_info\<close> and the three window attributes are \<^verbatim>\<open>None\<close> before
  \<^verbatim>\<open>Prep4plot\<close>: both are \<open>None\<close> here. \<open>self_out\<close> is what has been printed.
\<close>

record mp =
  self_sel_ligands :: string
  self_dz :: rat
  self_dh :: rat
  self_sel_m :: string
  self_sel_m_a :: string
  self_margin :: int
  self_nz :: "int option"
  self_nx :: "int option"
  self_ny :: "int option"
  self_mem_slab :: "vol list"
  self_mem_resid_slab :: "vol list"
  self_prot_slab :: "vol list"
  self_wat_slab :: "vol list"
  self_prot_area :: "int list list"
  self_mem_area :: "int list list"
  self_wat_area :: "int list list"
  self_tot_area :: "int list list"
  self_resid_array :: "int list list"
  self_resid_array_zx :: "int list list list"
  self_dens_p :: "rat list list"
  self_dens_m :: "rat list list"
  self_m_r_per_area :: "rat list list"
  self_mem_slab_frame :: "int list list list"
  self_mem_resid_slab_frame :: "int list list list"
  self_prot_slab_frame :: "int list list list"
  self_mem_slab_frame_zx :: "int list list"
  self_area_x :: "rat list list"
  self_start_mem :: "int option"
  self_stop_mem :: "int option"
  self_step_mem :: "int option"
  self_out :: "warning list"

text \<open>
  \<^verbatim>\<open>__init__\<close>, lines 172-234. \<^verbatim>\<open>self.sel_m = self.sel\<close> reads an attribute that
  is never set (AttributeError); \<^verbatim>\<open>4.0/d\<close> raises ZeroDivisionError for \<open>d = 0\<close>.
\<close>

definition mp_init :: "string \<Rightarrow> rat \<Rightarrow> rat \<Rightarrow> string \<Rightarrow> string \<Rightarrow> py_error + mp" where
  "mp_init sel_ligands d dh sel_m sel_m_a =
     (let sma =
        (if sel_m_a = [] then
           (if sel_ligands \<noteq> [] then
              ''(not type H ) and (not protein) '' @ '' and (resname '' @ sel_ligands @ '' )''
            else ''(not type H ) and (not protein) '')
         else sel_m_a @ '' and (not name H* )'')
      in
      if sel_m = [] then Inl AttributeError
      else if d = 0 then Inl ZeroDivisionError
      else Inr \<lparr> self_sel_ligands = sel_ligands, self_dz = d, self_dh = dh,
                 self_sel_m = sel_m, self_sel_m_a = sma,
                 self_margin = max 2 (py_int (4 / d) + 1),
                 self_nz = None, self_nx = None, self_ny = None,
                 self_mem_slab = [], self_mem_resid_slab = [], self_prot_slab = [],
                 self_wat_slab = [], self_prot_area = [], self_mem_area = [],
                 self_wat_area = [], self_tot_area = [], self_resid_array = [],
                 self_resid_array_zx = [], self_dens_p = [], self_dens_m = [],
                 self_m_r_per_area = [], self_mem_slab_frame = [],
                 self_mem_resid_slab_frame = [], self_prot_slab_frame = [],
                 self_mem_slab_frame_zx = [], self_area_x = [],
                 self_start_mem = None, self_stop_mem = None, self_step_mem = None,
                 self_out = [] \<rparr>)"

subsection \<open>\<^verbatim>\<open>Get_info\<close>: grid sizing and the frame loop\<close>

definition py_bind :: "py_error + 'a \<Rightarrow> ('a \<Rightarrow> py_error + 'b) \<Rightarrow> py_error + 'b" where
  "py_bind m f = (case m of Inl e \<Rightarrow> Inl e | Inr x \<Rightarrow> f x)"

text \<open>A loop whose body may raise: the first exception ends it.\<close>

fun fold_err :: "('s \<Rightarrow> 'a \<Rightarrow> py_error + 's) \<Rightarrow> 's \<Rightarrow> 'a list \<Rightarrow> py_error + 's" where
  "fold_err f s [] = Inr s"
| "fold_err f s (x # xs) = (case f s x of Inl e \<Rightarrow> Inl e | Inr s' \<Rightarrow> fold_err f s' xs)"

text \<open>
  One iteration of the loop of line 323, with the local variables \<open>nz\<close>, \<open>nx\<close>, \<open>ny\<close> of
  lines 303-305. \<^verbatim>\<open>np.zeros\<close> raises ValueError on a negative dimension. The ten
  appends are lines 424-433.
\<close>

definition frame_step :: "int \<times> int \<times> int \<Rightarrow> mp \<Rightarrow> frame \<Rightarrow> py_error + mp" where
  "frame_step dims self fr =
     (case dims of (nz, nx, ny) \<Rightarrow>
      if nz < 0 \<or> nx < 0 \<or> ny < 0 then Inl ValueError
      else
        let r = slab_accumulate (self_sel_m self) (self_sel_m_a self) (nat nz, nat nx, nat ny)
                  (self_dz self) (self_dh self) fr
        in Inr (self\<lparr> self_out := self_out self @ fo_out r,
                       self_tot_area := self_tot_area self @ [fo_tot_area r],
                       self_wat_area := self_wat_area self @ [fo_wat_area r],
                       self_mem_area := self_mem_area self @ [fo_mem_area r],
                       self_prot_area := self_prot_area self @ [fo_prot_area r],
                       self_mem_slab := self_mem_slab self @ [fo_mem_slab r],
                       self_mem_resid_slab := self_mem_resid_slab self @ [fo_mem_resid_slab r],
                       self_wat_slab := self_wat_slab self @ [fo_wat_slab r],
                       self_prot_slab := self_prot_slab self @ [fo_prot_slab r],
                       self_resid_array := self_resid_array self @ [fo_resid_array r],
                       self_resid_array_zx := self_resid_array_zx self @ [fo_resid_array_zx r] \<rparr>))"

text \<open>
  \<^verbatim>\<open>Get_info\<close>. \<open>dims0\<close> is \<^verbatim>\<open>u_mem.dimensions\<close> in the order \<open>(x, y, z)\<close>, read at
  lines 298-300 after trajectory frame 0 has been loaded and re-centered; \<open>frames\<close> are the
  frames of \<^verbatim>\<open>range(start_analysis, stop_analysis, step_analysis)\<close>, each after its own
  re-centering. A numpy float divided by zero is infinite or not a number, and
  \<^verbatim>\<open>int\<close> of it raises OverflowError or ValueError.
\<close>

definition int_of_quotient :: "rat \<Rightarrow> rat \<Rightarrow> py_error + int" where
  "int_of_quotient a b =
     (if b = 0 then Inl (if a = 0 then ValueError else OverflowError)
      else Inr (py_int (a / b)))"

definition Get_info :: "mp \<Rightarrow> rat \<times> rat \<times> rat \<Rightarrow> frame list \<Rightarrow> py_error + mp" where
  "Get_info self dims0 frames =
     (case dims0 of (bx, by, bz) \<Rightarrow>
      py_bind (int_of_quotient bz (self_dh self)) (\<lambda>qz.
      py_bind (int_of_quotient bx (self_dz self)) (\<lambda>qx.
      py_bind (int_of_quotient by (self_dz self)) (\<lambda>qy.
        let nz = qz + self_margin self + 1;
            nx = qx + self_margin self;
            ny = qy + self_margin self;
            self1 = self\<lparr> self_nz := Some nz, self_nx := Some nx, self_ny := Some ny \<rparr>
        in fold_err (frame_step (nz, nx, ny)) self1 frames))))"

subsection \<open>\<^verbatim>\<open>Prep4plot\<close>: densities, area per residue and the summed maps\<close>

text \<open>\<^verbatim>\<open>xs[i]\<close> on a list, or on the first axis of an array, with a Python integer.\<close>

definition py_get :: "'a list \<Rightarrow> int \<Rightarrow> py_error + 'a" where
  "py_get xs i = (case np_index (length xs) i of None \<Rightarrow> Inl IndexError | Some k \<Rightarrow> Inr (xs ! k))"

text \<open>\<^verbatim>\<open>np.argwhere(a > 0)\<close> on a vector: the indices of the positive entries, ascending.\<close>

definition argwhere_pos :: "int list \<Rightarrow> nat list" where
  "argwhere_pos xs = filter (\<lambda>i. 0 < xs ! i) [0..<length xs]"

text \<open>\<^verbatim>\<open>range(a, b, s)\<close>; a zero step raises ValueError.\<close>

definition py_range :: "int \<Rightarrow> int \<Rightarrow> int \<Rightarrow> py_error + int list" where
  "py_range a b s =
     (if s = 0 then Inl ValueError
      else if 0 < s then Inr (map (\<lambda>k. a + s * int k) [0..<nat ((b - a + s - 1) div s)])
      else Inr (map (\<lambda>k. a + s * int k) [0..<nat ((a - b - s - 1) div (- s))]))"

text \<open>\<^verbatim>\<open>np.sum(np.sum(v, axis=2), axis=1)\<close>: the number of atoms in each z-slab.\<close>

definition number_per_z :: "vol \<Rightarrow> int list" where
  "number_per_z v = map (\<lambda>slab. sum_list (map sum_list slab)) v"

text \<open>Lines 473-476.\<close>

definition dens_p0 :: "int list \<Rightarrow> int list \<Rightarrow> rat list" where
  "dens_p0 area_p number_p =
     map (\<lambda>(a, d). if 0 < a then of_int d / of_int a else 0) (zip area_p number_p)"

text \<open>
  Lines 485-493, one loop in the source that fills two lists. The threshold \<^verbatim>\<open>0.025\<close> is
  the rational \<open>1/40\<close>.
\<close>

definition dens_m0 :: "rat list \<Rightarrow> int list \<Rightarrow> int list \<Rightarrow> rat list" where
  "dens_m0 area_m number_m resid_f =
     map (\<lambda>(a, d, r). if 0 < a \<and> 0 < r then of_int d / a else 0)
       (zip area_m (zip number_m resid_f))"

definition dens_r0 :: "rat list \<Rightarrow> int list \<Rightarrow> int list \<Rightarrow> rat list" where
  "dens_r0 area_m number_m resid_f =
     map (\<lambda>(a, d, r).
            if 0 < a \<and> 0 < r then (if 1 / 40 < of_int d / a then a / of_int r else 0)
            else 0)
       (zip area_m (zip number_m resid_f))"

text \<open>\<^verbatim>\<open>np.add\<close> on two arrays of the same shape, of one and of two dimensions.\<close>

definition add1 :: "'a::plus list \<Rightarrow> 'a list \<Rightarrow> 'a list" where
  "add1 a b = map2 (+) a b"

definition add2 :: "int list list \<Rightarrow> int list list \<Rightarrow> int list list" where
  "add2 a b = map2 add1 a b"

text \<open>
  Lines 505 and 513:
  \<^verbatim>\<open>self.dz*self.dz*(self.nx-np.count_nonzero(self.prot_slab[frame][z],axis=1))\<close>.
\<close>

definition area_x_row :: "rat \<Rightarrow> int \<Rightarrow> int list list \<Rightarrow> rat list" where
  "area_x_row dz nx slab =
     map (\<lambda>row. dz * dz * (of_int nx - of_nat (length (filter (\<lambda>c. c \<noteq> 0) row)))) slab"

text \<open>
  Lines 501-514, the body of the loop over \<^verbatim>\<open>enumerate(range(...))\<close>: frame 0 appends
  the slab \<open>z\<close> of each array to the five lists, a later frame adds it to entry \<open>i\<close>.
\<close>

definition slab_maps_step :: "nat \<Rightarrow> mp \<Rightarrow> nat \<times> int \<Rightarrow> py_error + mp" where
  "slab_maps_step fr self iz =
     (case iz of (i, z) \<Rightarrow>
      py_bind (py_bind (py_get (self_mem_slab self) (int fr)) (\<lambda>v. py_get v z)) (\<lambda>m.
      py_bind (py_bind (py_get (self_mem_resid_slab self) (int fr)) (\<lambda>v. py_get v z)) (\<lambda>mr.
      py_bind (py_bind (py_get (self_prot_slab self) (int fr)) (\<lambda>v. py_get v z)) (\<lambda>p.
      py_bind (case self_nx self of None \<Rightarrow> Inl AttributeError | Some nx \<Rightarrow> Inr nx) (\<lambda>nx.
      py_bind (py_bind (py_get (self_resid_array_zx self) (int fr)) (\<lambda>v. py_get v z)) (\<lambda>rzx.
      let ax = area_x_row (self_dz self) nx p in
      if fr = 0 then
        Inr (self\<lparr> self_mem_slab_frame := self_mem_slab_frame self @ [m],
                    self_mem_resid_slab_frame := self_mem_resid_slab_frame self @ [mr],
                    self_prot_slab_frame := self_prot_slab_frame self @ [p],
                    self_area_x := self_area_x self @ [ax],
                    self_mem_slab_frame_zx := self_mem_slab_frame_zx self @ [rzx] \<rparr>)
      else
        py_bind (py_get (self_mem_slab_frame self) (int i)) (\<lambda>a1.
        py_bind (py_get (self_mem_resid_slab_frame self) (int i)) (\<lambda>a2.
        py_bind (py_get (self_prot_slab_frame self) (int i)) (\<lambda>a3.
        py_bind (py_get (self_area_x self) (int i)) (\<lambda>a4.
        py_bind (py_get (self_mem_slab_frame_zx self) (int i)) (\<lambda>a5.
        Inr (self\<lparr> self_mem_slab_frame := (self_mem_slab_frame self)[i := add2 a1 m],
                    self_mem_resid_slab_frame := (self_mem_resid_slab_frame self)[i := add2 a2 mr],
                    self_prot_slab_frame := (self_prot_slab_frame self)[i := add2 a3 p],
                    self_area_x := (self_area_x self)[i := add1 a4 ax],
                    self_mem_slab_frame_zx :=
                      (self_mem_slab_frame_zx self)[i := add1 a5 rzx] \<rparr>))))))))))))"

text \<open>
  The z-slabs visited by the loop of line 500, read from the object at that moment:
  \<^verbatim>\<open>range(self.start_mem, self.stop_mem, self.step_mem)\<close>.
\<close>

definition mem_window :: "mp \<Rightarrow> py_error + int list" where
  "mem_window self =
     (case (self_start_mem self, self_stop_mem self, self_step_mem self) of
        (Some a, Some b, Some s) \<Rightarrow> py_range a b s
      | _ \<Rightarrow> Inl TypeError)"

text \<open>Lines 471-514: the body of the loop over \<^verbatim>\<open>frame\<close>.\<close>

definition prep_frame :: "rat \<Rightarrow> mp \<Rightarrow> nat \<Rightarrow> py_error + mp" where
  "prep_frame area_xy self fr =
     py_bind (py_get (self_prot_slab self) (int fr)) (\<lambda>ps.
     py_bind (py_get (self_prot_area self) (int fr)) (\<lambda>pa.
     py_bind (py_get (self_mem_slab self) (int fr)) (\<lambda>ms.
     py_bind (py_get (self_resid_array self) (int fr)) (\<lambda>ra.
       let area_m = map (\<lambda>a. area_xy - of_int a) pa;
           number_m = number_per_z ms;
           self1 = self\<lparr> self_dens_p := self_dens_p self @ [dens_p0 pa (number_per_z ps)],
                         self_dens_m := self_dens_m self @ [dens_m0 area_m number_m ra],
                         self_m_r_per_area :=
                           self_m_r_per_area self @ [dens_r0 area_m number_m ra] \<rparr>
       in py_bind (mem_window self1) (\<lambda>zs.
            fold_err (slab_maps_step fr) self1 (enumerate 0 zs))))))"

text \<open>
  Lines 463-465: the window of z-slabs, from the residue profile of the first processed
  frame. \<^verbatim>\<open>np.argwhere(...)[0]\<close> raises IndexError when no entry of
  \<^verbatim>\<open>self.resid_array[0]\<close> is positive.
\<close>

definition set_mem_window :: "mp \<Rightarrow> py_error + mp" where
  "set_mem_window self =
     py_bind (py_get (self_resid_array self) 0) (\<lambda>r0.
       let w = argwhere_pos r0 in
       if w = [] then Inl IndexError
       else Inr (self\<lparr> self_start_mem := Some (int (hd w) - 2),
                       self_stop_mem := Some (int (last w) + 2),
                       self_step_mem := Some 2 \<rparr>))"

text \<open>\<^verbatim>\<open>Prep4plot\<close>, lines 460-515.\<close>

definition Prep4plot :: "mp \<Rightarrow> py_error + mp" where
  "Prep4plot self =
     (case (self_nx self, self_ny self) of
        (Some nx, Some ny) \<Rightarrow>
          let area_xy = of_int nx * of_int ny * self_dz self * self_dz self in
          py_bind (set_mem_window self) (\<lambda>self1.
            fold_err (prep_frame area_xy) self1 [0..<length (self_resid_array self1)])
      | _ \<Rightarrow> Inl AttributeError)"

subsection \<open>Predicates used in the statements\<close>

text \<open>An array of shape \<open>(nz, nx, ny)\<close>.\<close>

definition shaped :: "shape \<Rightarrow> vol \<Rightarrow> bool" where
  "shaped sh v =
     (case sh of (nz, nx, ny) \<Rightarrow>
        length v = nz \<and> list_all (\<lambda>p. length p = nx \<and> list_all (\<lambda>r. length r = ny) p) v)"

text \<open>A computed index inside \<open>[0,nz) \<times> [0,nx) \<times> [0,ny)\<close>.\<close>

definition in_grid :: "shape \<Rightarrow> int \<times> int \<times> int \<Rightarrow> bool" where
  "in_grid sh idx =
     (case sh of (nz, nx, ny) \<Rightarrow>
      case idx of (iz, ix, iy) \<Rightarrow>
        0 \<le> iz \<and> iz < int nz \<and> 0 \<le> ix \<and> ix < int nx \<and> 0 \<le> iy \<and> iy < int ny)"


subsection \<open>A small run, used to instantiate the theorems\<close>

text \<open>
  Cell sizes \<open>d = dh = 4\<close> and a first box of \<open>4 \<times> 4 \<times> 4\<close> give the margin 2 and the
  grid \<open>(nz, nx, ny) = (4, 3, 3)\<close>. The head-subset selection differs from the all-atoms
  selection, as with the default arguments. The second frame reports a larger box.
\<close>

definition ex_frame :: frame where
  "ex_frame =
     \<lparr> dimensions = (4, 4, 4),
       u_mem_sel_m =
         [\<lparr>resid = 1, resname = ''PC'', pos_x = 1, pos_y = 1, pos_z = 5\<rparr>,
          \<lparr>resid = 1, resname = ''PC'', pos_x = 1, pos_y = 5, pos_z = 5\<rparr>],
       u_mem_sel_m_a =
         [\<lparr>resid = 1, resname = ''PC'', pos_x = 1, pos_y = 1, pos_z = 5\<rparr>,
          \<lparr>resid = 2, resname = ''OL'', pos_x = 5, pos_y = 1, pos_z = 5\<rparr>,
          \<lparr>resid = 1, resname = ''PC'', pos_x = 1, pos_y = 5, pos_z = 5\<rparr>,
          \<lparr>resid = 2, resname = ''OL'', pos_x = 5, pos_y = 5, pos_z = 5\<rparr>],
       u_mem_sel_p =
         [\<lparr>resid = 10, resname = ''ALA'', pos_x = 1, pos_y = 1, pos_z = 5\<rparr>,
          \<lparr>resid = 10, resname = ''ALA'', pos_x = 9, pos_y = 9, pos_z = 5\<rparr>],
       u_mem_sel_w =
         [\<lparr>resid = 20, resname = ''WAT'', pos_x = 1, pos_y = 1, pos_z = 5\<rparr>,
          \<lparr>resid = 21, resname = ''WAT'', pos_x = 9, pos_y = 9, pos_z = 5\<rparr>,
          \<lparr>resid = 22, resname = ''WAT'', pos_x = 1, pos_y = 1, pos_z = 9\<rparr>,
          \<lparr>resid = 23, resname = ''WAT'', pos_x = 2, pos_y = 2, pos_z = 9\<rparr>] \<rparr>"

definition ex_frame2 :: frame where
  "ex_frame2 =
     \<lparr> dimensions = (5, 5, 6),
       u_mem_sel_m = [\<lparr>resid = 1, resname = ''PC'', pos_x = 5, pos_y = 1, pos_z = 9\<rparr>],
       u_mem_sel_m_a = [\<lparr>resid = 1, resname = ''PC'', pos_x = 5, pos_y = 1, pos_z = 9\<rparr>],
       u_mem_sel_p = [\<lparr>resid = 10, resname = ''ALA'', pos_x = 9, pos_y = 9, pos_z = 5\<rparr>],
       u_mem_sel_w = [\<lparr>resid = 20, resname = ''WAT'', pos_x = 1, pos_y = 1, pos_z = 1\<rparr>] \<rparr>"

definition ex_self0 :: mp where
  "ex_self0 = projr (mp_init [] 4 4 ''PC'' ''PC OL'')"

definition ex_self :: mp where
  "ex_self = projr (Get_info ex_self0 (4, 4, 4) [ex_frame, ex_frame2])"

definition ex_plot :: mp where
  "ex_plot = projr (Prep4plot ex_self)"








text \<open>
  The residue count of a z-slab in the words of the specification: the number of distinct
  residue ids among the head-subset atoms whose index is inside the grid and whose z index
  is that slab.
\<close>

definition spec_residue_count :: "shape \<Rightarrow> rat \<Rightarrow> rat \<Rightarrow> atom list \<Rightarrow> nat \<Rightarrow> int" where
  "spec_residue_count sh dz dh atoms z =
     int (length (remdups (map resid
       (filter (\<lambda>t. in_grid sh (cell_index dz dh t) \<and> fst (cell_index dz dh t) = int z) atoms))))"

definition ex_atom_side :: atom where
  "ex_atom_side = \<lparr>resid = 7, resname = ''PC'', pos_x = 1, pos_y = 100, pos_z = 5\<rparr>"

definition ex_frame_side :: frame where
  "ex_frame_side =
     \<lparr> dimensions = (4, 4, 4),
       u_mem_sel_m = [ex_atom_side],
       u_mem_sel_m_a = [ex_atom_side],
       u_mem_sel_p = [],
       u_mem_sel_w = [] \<rparr>"

definition ex_side :: mp where
  "ex_side = projr (Get_info ex_self0 (4, 4, 4) [ex_frame_side])"

definition ex_atom_x :: atom where
  "ex_atom_x = \<lparr>resid = 7, resname = ''PC'', pos_x = 100, pos_y = 1, pos_z = 5\<rparr>"

definition ex_atom_x2 :: atom where
  "ex_atom_x2 = \<lparr>resid = 7, resname = ''PC'', pos_x = 1, pos_y = 1, pos_z = 5\<rparr>"

definition ex_frame_x :: frame where
  "ex_frame_x =
     \<lparr> dimensions = (4, 4, 4),
       u_mem_sel_m = [ex_atom_x, ex_atom_x2],
       u_mem_sel_m_a = [ex_atom_x, ex_atom_x2],
       u_mem_sel_p = [],
       u_mem_sel_w = [] \<rparr>"

definition ex_x :: mp where
  "ex_x = projr (Get_info ex_self0 (4, 4, 4) [ex_frame_x])"

section \<open>Properties\<close>

subsection \<open>Indexing and shapes\<close>

lemma np_index_Some_less: "np_index n i = Some k \<Longrightarrow> k < n"
  by (auto simp: np_index_def split: if_splits)

lemma np_index3_Some_less:
  "np_index3 (nz, nx, ny) idx = Some (z, x, y) \<Longrightarrow> z < nz \<and> x < nx \<and> y < ny"
  by (cases idx) (auto simp: np_index3_def split: option.splits dest: np_index_Some_less)


lemma np_index3_in_grid:
  "in_grid (nz, nx, ny) (iz, ix, iy) \<Longrightarrow> np_index3 (nz, nx, ny) (iz, ix, iy) = Some (nat iz, nat ix, nat iy)"
  by (auto simp: np_index3_def in_grid_def np_index_def)

lemma shaped_zeros3: "shaped sh (zeros3 sh)"
  by (cases sh) (auto simp: shaped_def zeros3_def list_all_iff)

lemma shaped_nth:
  "shaped (nz, nx, ny) v \<Longrightarrow> z < nz \<Longrightarrow> length (v ! z) = nx \<and> (\<forall>x<nx. length (v ! z ! x) = ny)"
  by (auto simp: shaped_def list_all_length)

lemma nth_upd_total: "xs[i := x] ! j = (if i = j \<and> i < length xs then x else xs ! j)"
  by (cases "i < length xs") (auto simp: list_update_beyond)

lemma shaped_upd3:
  "shaped (nz, nx, ny) v \<Longrightarrow> shaped (nz, nx, ny) (upd3 v (z, x, y) f)"
  by (auto simp: shaped_def upd3_def list_all_length nth_upd_total)

lemma get3_upd3:
  assumes "shaped (nz, nx, ny) v" "z < nz" "x < nx" "y < ny"
  shows "get3 (upd3 v (z, x, y) f) k = (if k = (z, x, y) then f (get3 v k) else get3 v k)"
  using assms by (cases k) (auto simp: get3_def upd3_def shaped_def list_all_length nth_list_update)


lemma get3_zeros3: "z < nz \<Longrightarrow> x < nx \<Longrightarrow> y < ny \<Longrightarrow> get3 (zeros3 (nz, nx, ny)) (z, x, y) = 0"
  by (simp add: get3_def zeros3_def)

lemma prot_step_inv:
  assumes "shaped (nz, nx, ny) (fst s)"
    and "\<forall>z<nz. \<forall>x<nx. \<forall>y<ny. get3 m (z, x, y) \<noteq> 0 \<longrightarrow> get3 (fst s) (z, x, y) = 0"
  shows "shaped (nz, nx, ny) (fst (prot_step (nz, nx, ny) dz dh m s t)) \<and>
         (\<forall>z<nz. \<forall>x<nx. \<forall>y<ny. get3 m (z, x, y) \<noteq> 0
             \<longrightarrow> get3 (fst (prot_step (nz, nx, ny) dz dh m s t)) (z, x, y) = 0)"
proof (cases "np_index3 (nz, nx, ny) (cell_index dz dh t)")
  case None
  then show ?thesis using assms by (cases s) (simp add: prot_step_def)
next
  case (Some k)
  obtain a b c where k: "k = (a, b, c)" by (cases k)
  with Some have bnd: "a < nz" "b < nx" "c < ny"
    using np_index3_Some_less by blast+
  show ?thesis
    using assms Some bnd
    by (cases s) (auto simp: prot_step_def k shaped_upd3 get3_upd3)
qed

lemma prot_fold_inv:
  assumes "shaped (nz, nx, ny) (fst s)"
    and "\<forall>z<nz. \<forall>x<nx. \<forall>y<ny. get3 m (z, x, y) \<noteq> 0 \<longrightarrow> get3 (fst s) (z, x, y) = 0"
  shows "shaped (nz, nx, ny) (fst (foldl (prot_step (nz, nx, ny) dz dh m) s ts)) \<and>
         (\<forall>z<nz. \<forall>x<nx. \<forall>y<ny. get3 m (z, x, y) \<noteq> 0
             \<longrightarrow> get3 (fst (foldl (prot_step (nz, nx, ny) dz dh m) s ts)) (z, x, y) = 0)"
  using assms
proof (induction ts arbitrary: s)
  case Nil
  then show ?case by simp
next
  case (Cons t ts)
  from prot_step_inv[OF Cons.prems] show ?case
    by (simp add: Cons.IH)
qed

lemma wat_step_inv:
  assumes "shaped (nz, nx, ny) w"
    and "\<forall>z<nz. \<forall>x<nx. \<forall>y<ny. (get3 w (z, x, y) = 0 \<or> get3 w (z, x, y) = 1) \<and>
            (get3 m (z, x, y) \<noteq> 0 \<or> get3 p (z, x, y) \<noteq> 0 \<longrightarrow> get3 w (z, x, y) = 0)"
  shows "shaped (nz, nx, ny) (wat_step (nz, nx, ny) dz dh m p w t) \<and>
         (\<forall>z<nz. \<forall>x<nx. \<forall>y<ny.
            (get3 (wat_step (nz, nx, ny) dz dh m p w t) (z, x, y) = 0
              \<or> get3 (wat_step (nz, nx, ny) dz dh m p w t) (z, x, y) = 1) \<and>
            (get3 m (z, x, y) \<noteq> 0 \<or> get3 p (z, x, y) \<noteq> 0
              \<longrightarrow> get3 (wat_step (nz, nx, ny) dz dh m p w t) (z, x, y) = 0))"
proof (cases "np_index3 (nz, nx, ny) (cell_index dz dh t)")
  case None
  then show ?thesis using assms by (simp add: wat_step_def)
next
  case (Some k)
  obtain a b c where k: "k = (a, b, c)" by (cases k)
  with Some have bnd: "a < nz" "b < nx" "c < ny"
    using np_index3_Some_less by blast+
  show ?thesis
    using assms Some bnd
    by (auto simp: wat_step_def k shaped_upd3 get3_upd3)
qed

lemma wat_fold_inv:
  assumes "shaped (nz, nx, ny) w"
    and "\<forall>z<nz. \<forall>x<nx. \<forall>y<ny. (get3 w (z, x, y) = 0 \<or> get3 w (z, x, y) = 1) \<and>
            (get3 m (z, x, y) \<noteq> 0 \<or> get3 p (z, x, y) \<noteq> 0 \<longrightarrow> get3 w (z, x, y) = 0)"
  shows "shaped (nz, nx, ny) (foldl (wat_step (nz, nx, ny) dz dh m p) w ts) \<and>
         (\<forall>z<nz. \<forall>x<nx. \<forall>y<ny.
            (get3 (foldl (wat_step (nz, nx, ny) dz dh m p) w ts) (z, x, y) = 0
              \<or> get3 (foldl (wat_step (nz, nx, ny) dz dh m p) w ts) (z, x, y) = 1) \<and>
            (get3 m (z, x, y) \<noteq> 0 \<or> get3 p (z, x, y) \<noteq> 0
              \<longrightarrow> get3 (foldl (wat_step (nz, nx, ny) dz dh m p) w ts) (z, x, y) = 0))"
  using assms
proof (induction ts arbitrary: w)
  case Nil
  then show ?case by simp
next
  case (Cons t ts)
  from wat_step_inv[OF Cons.prems] show ?case
    by (simp add: Cons.IH)
qed


lemma mem_all_step_shaped:
  "shaped (nz, nx, ny) (fst s) \<Longrightarrow> shaped (nz, nx, ny) (fst (mem_all_step (nz, nx, ny) dz dh s t))"
  by (cases s) (auto simp: mem_all_step_def Let_def shaped_upd3 split: option.splits)

lemma mem_all_fold_shaped:
  "shaped (nz, nx, ny) (fst s) \<Longrightarrow> shaped (nz, nx, ny) (fst (foldl (mem_all_step (nz, nx, ny) dz dh) s ts))"
  by (induction ts arbitrary: s) (simp_all add: mem_all_step_shaped)

lemma mem_same_step_shaped:
  "shaped (nz, nx, ny) (fst s) \<Longrightarrow> shaped (nz, nx, ny) (fst (mem_same_step (nz, nx, ny) dz dh s t))"
  by (cases s) (auto simp: mem_same_step_def Let_def shaped_upd3 split: option.splits)

lemma mem_same_fold_shaped:
  "shaped (nz, nx, ny) (fst s) \<Longrightarrow> shaped (nz, nx, ny) (fst (foldl (mem_same_step (nz, nx, ny) dz dh) s ts))"
  by (induction ts arbitrary: s) (simp_all add: mem_same_step_shaped)

lemma membrane_pass_shaped:
  "shaped (nz, nx, ny) (fst (membrane_pass sm sma (nz, nx, ny) dz dh fr))"
  by (simp add: membrane_pass_def Let_def case_prod_beta mem_all_fold_shaped
      mem_same_fold_shaped shaped_zeros3)

lemma fo_mem_slab_eq:
  "fo_mem_slab (slab_accumulate sm sma sh dz dh fr) = fst (membrane_pass sm sma sh dz dh fr)"
  by (simp add: slab_accumulate_def Let_def case_prod_beta)

lemma fo_prot_slab_eq:
  "fo_prot_slab (slab_accumulate sm sma sh dz dh fr) =
     fst (foldl (prot_step sh dz dh (fst (membrane_pass sm sma sh dz dh fr)))
            (zeros3 sh, snd (snd (snd (snd (membrane_pass sm sma sh dz dh fr))))) (u_mem_sel_p fr))"
  by (simp add: slab_accumulate_def Let_def case_prod_beta)

lemma fo_wat_slab_eq:
  "fo_wat_slab (slab_accumulate sm sma sh dz dh fr) =
     foldl (wat_step sh dz dh (fo_mem_slab (slab_accumulate sm sma sh dz dh fr))
              (fo_prot_slab (slab_accumulate sm sma sh dz dh fr)))
       (zeros3 sh) (u_mem_sel_w fr)"
  by (simp add: slab_accumulate_def Let_def case_prod_beta)

lemma slab_accumulate_shaped:
  "shaped (nz, nx, ny) (fo_mem_slab (slab_accumulate sm sma (nz, nx, ny) dz dh fr))"
  "shaped (nz, nx, ny) (fo_prot_slab (slab_accumulate sm sma (nz, nx, ny) dz dh fr))"
  "shaped (nz, nx, ny) (fo_wat_slab (slab_accumulate sm sma (nz, nx, ny) dz dh fr))"
proof -
  show m: "shaped (nz, nx, ny) (fo_mem_slab (slab_accumulate sm sma (nz, nx, ny) dz dh fr))"
    by (simp add: fo_mem_slab_eq membrane_pass_shaped)
  show "shaped (nz, nx, ny) (fo_prot_slab (slab_accumulate sm sma (nz, nx, ny) dz dh fr))"
    unfolding fo_prot_slab_eq
    by (rule prot_fold_inv[THEN conjunct1]) (simp_all add: shaped_zeros3 get3_zeros3)
  show "shaped (nz, nx, ny) (fo_wat_slab (slab_accumulate sm sma (nz, nx, ny) dz dh fr))"
    unfolding fo_wat_slab_eq
    by (rule wat_fold_inv[THEN conjunct1]) (simp_all add: shaped_zeros3 get3_zeros3)
qed

lemma slab_accumulate_exclusion:
  assumes "z < nz" "x < nx" "y < ny"
  shows "(get3 (fo_mem_slab (slab_accumulate sm sma (nz, nx, ny) dz dh fr)) (z, x, y) \<noteq> 0
            \<longrightarrow> get3 (fo_prot_slab (slab_accumulate sm sma (nz, nx, ny) dz dh fr)) (z, x, y) = 0)"
    and "(get3 (fo_mem_slab (slab_accumulate sm sma (nz, nx, ny) dz dh fr)) (z, x, y) \<noteq> 0
           \<or> get3 (fo_prot_slab (slab_accumulate sm sma (nz, nx, ny) dz dh fr)) (z, x, y) \<noteq> 0
            \<longrightarrow> get3 (fo_wat_slab (slab_accumulate sm sma (nz, nx, ny) dz dh fr)) (z, x, y) = 0)"
    and "get3 (fo_wat_slab (slab_accumulate sm sma (nz, nx, ny) dz dh fr)) (z, x, y) = 0
           \<or> get3 (fo_wat_slab (slab_accumulate sm sma (nz, nx, ny) dz dh fr)) (z, x, y) = 1"
proof -
  let ?m = "fst (membrane_pass sm sma (nz, nx, ny) dz dh fr)"
  let ?s0 = "(zeros3 (nz, nx, ny), snd (snd (snd (snd (membrane_pass sm sma (nz, nx, ny) dz dh fr)))))"
  have "\<forall>z<nz. \<forall>x<nx. \<forall>y<ny. get3 ?m (z, x, y) \<noteq> 0
          \<longrightarrow> get3 (fst (foldl (prot_step (nz, nx, ny) dz dh ?m) ?s0 (u_mem_sel_p fr))) (z, x, y) = 0"
    by (rule prot_fold_inv[THEN conjunct2]) (simp_all add: shaped_zeros3 get3_zeros3)
  then show "(get3 (fo_mem_slab (slab_accumulate sm sma (nz, nx, ny) dz dh fr)) (z, x, y) \<noteq> 0
            \<longrightarrow> get3 (fo_prot_slab (slab_accumulate sm sma (nz, nx, ny) dz dh fr)) (z, x, y) = 0)"
    using assms by (simp add: fo_mem_slab_eq fo_prot_slab_eq)
  let ?M = "fo_mem_slab (slab_accumulate sm sma (nz, nx, ny) dz dh fr)"
  let ?P = "fo_prot_slab (slab_accumulate sm sma (nz, nx, ny) dz dh fr)"
  let ?W = "foldl (wat_step (nz, nx, ny) dz dh ?M ?P) (zeros3 (nz, nx, ny)) (u_mem_sel_w fr)"
  have w: "\<forall>z<nz. \<forall>x<nx. \<forall>y<ny.
            (get3 ?W (z, x, y) = 0 \<or> get3 ?W (z, x, y) = 1) \<and>
            (get3 ?M (z, x, y) \<noteq> 0 \<or> get3 ?P (z, x, y) \<noteq> 0 \<longrightarrow> get3 ?W (z, x, y) = 0)"
    by (rule wat_fold_inv[THEN conjunct2]) (simp_all add: shaped_zeros3 get3_zeros3)
  have eq: "fo_wat_slab (slab_accumulate sm sma (nz, nx, ny) dz dh fr) = ?W"
    by (rule fo_wat_slab_eq)
  show "(get3 ?M (z, x, y) \<noteq> 0 \<or> get3 ?P (z, x, y) \<noteq> 0
            \<longrightarrow> get3 (fo_wat_slab (slab_accumulate sm sma (nz, nx, ny) dz dh fr)) (z, x, y) = 0)"
    using w assms unfolding eq by blast
  show "get3 (fo_wat_slab (slab_accumulate sm sma (nz, nx, ny) dz dh fr)) (z, x, y) = 0
           \<or> get3 (fo_wat_slab (slab_accumulate sm sma (nz, nx, ny) dz dh fr)) (z, x, y) = 1"
    using w assms unfolding eq by blast
qed

subsection \<open>The frame loop\<close>

lemma frame_step_Inr:
  "frame_step (nz, nx, ny) s fr = Inr s' \<Longrightarrow>
     0 \<le> nz \<and> 0 \<le> nx \<and> 0 \<le> ny \<and>
     s' = (let r = slab_accumulate (self_sel_m s) (self_sel_m_a s) (nat nz, nat nx, nat ny)
                     (self_dz s) (self_dh s) fr
           in s\<lparr> self_out := self_out s @ fo_out r,
                  self_tot_area := self_tot_area s @ [fo_tot_area r],
                  self_wat_area := self_wat_area s @ [fo_wat_area r],
                  self_mem_area := self_mem_area s @ [fo_mem_area r],
                  self_prot_area := self_prot_area s @ [fo_prot_area r],
                  self_mem_slab := self_mem_slab s @ [fo_mem_slab r],
                  self_mem_resid_slab := self_mem_resid_slab s @ [fo_mem_resid_slab r],
                  self_wat_slab := self_wat_slab s @ [fo_wat_slab r],
                  self_prot_slab := self_prot_slab s @ [fo_prot_slab r],
                  self_resid_array := self_resid_array s @ [fo_resid_array r],
                  self_resid_array_zx := self_resid_array_zx s @ [fo_resid_array_zx r] \<rparr>)"
  by (auto simp: frame_step_def Let_def split: if_splits)

lemma frame_loop_result:
  "fold_err (frame_step (nz, nx, ny)) s frs = Inr s' \<Longrightarrow>
     s' = (let acc = slab_accumulate (self_sel_m s) (self_sel_m_a s) (nat nz, nat nx, nat ny)
                       (self_dz s) (self_dh s)
           in s\<lparr> self_out := self_out s @ concat (map (\<lambda>fr. fo_out (acc fr)) frs),
                  self_tot_area := self_tot_area s @ map (\<lambda>fr. fo_tot_area (acc fr)) frs,
                  self_wat_area := self_wat_area s @ map (\<lambda>fr. fo_wat_area (acc fr)) frs,
                  self_mem_area := self_mem_area s @ map (\<lambda>fr. fo_mem_area (acc fr)) frs,
                  self_prot_area := self_prot_area s @ map (\<lambda>fr. fo_prot_area (acc fr)) frs,
                  self_mem_slab := self_mem_slab s @ map (\<lambda>fr. fo_mem_slab (acc fr)) frs,
                  self_mem_resid_slab :=
                    self_mem_resid_slab s @ map (\<lambda>fr. fo_mem_resid_slab (acc fr)) frs,
                  self_wat_slab := self_wat_slab s @ map (\<lambda>fr. fo_wat_slab (acc fr)) frs,
                  self_prot_slab := self_prot_slab s @ map (\<lambda>fr. fo_prot_slab (acc fr)) frs,
                  self_resid_array := self_resid_array s @ map (\<lambda>fr. fo_resid_array (acc fr)) frs,
                  self_resid_array_zx :=
                    self_resid_array_zx s @ map (\<lambda>fr. fo_resid_array_zx (acc fr)) frs \<rparr>)"
proof (induction frs arbitrary: s)
  case Nil
  then show ?case by simp
next
  case (Cons fr frs)
  from Cons.prems obtain s1 where s1: "frame_step (nz, nx, ny) s fr = Inr s1"
    and rest: "fold_err (frame_step (nz, nx, ny)) s1 frs = Inr s'"
    by (auto split: sum.splits)
  show ?case
    unfolding Cons.IH[OF rest] using frame_step_Inr[OF s1]
    by (simp add: Let_def)
qed

lemma frame_loop_dims:
  "fold_err (frame_step (nz, nx, ny)) s frs = Inr s' \<Longrightarrow> frs \<noteq> [] \<Longrightarrow>
     0 \<le> nz \<and> 0 \<le> nx \<and> 0 \<le> ny"
  by (cases frs) (auto split: sum.splits dest: frame_step_Inr)

lemma Get_info_Inr:
  assumes "Get_info self (bx, by, bz) frs = Inr self'"
  shows "self_dh self \<noteq> 0 \<and> self_dz self \<noteq> 0 \<and>
         fold_err (frame_step (py_int (bz / self_dh self) + self_margin self + 1,
                               py_int (bx / self_dz self) + self_margin self,
                               py_int (by / self_dz self) + self_margin self))
           (self\<lparr> self_nz := Some (py_int (bz / self_dh self) + self_margin self + 1),
                   self_nx := Some (py_int (bx / self_dz self) + self_margin self),
                   self_ny := Some (py_int (by / self_dz self) + self_margin self) \<rparr>) frs
         = Inr self'"
  using assms
  by (auto simp: Get_info_def py_bind_def int_of_quotient_def Let_def split: if_splits)

lemma mp_init_Inr:
  assumes "mp_init sl d dh sm sma = Inr self"
  shows "d \<noteq> 0" "self_dz self = d" "self_dh self = dh" "self_sel_m self = sm"
    "self_margin self = max 2 (py_int (4 / d) + 1)"
    "self_mem_slab self = []" "self_mem_resid_slab self = []" "self_prot_slab self = []"
    "self_wat_slab self = []" "self_prot_area self = []" "self_mem_area self = []"
    "self_wat_area self = []" "self_tot_area self = []" "self_resid_array self = []"
    "self_resid_array_zx self = []" "self_dens_p self = []" "self_dens_m self = []"
    "self_m_r_per_area self = []" "self_out self = []"
    "self_mem_slab_frame self = []" "self_mem_resid_slab_frame self = []"
    "self_prot_slab_frame self = []" "self_mem_slab_frame_zx self = []" "self_area_x self = []"
  using assms by (auto simp: mp_init_def Let_def split: if_splits)

lemma Get_info_run:
  assumes init: "mp_init sl d dh sm sma = Inr self0"
    and gi: "Get_info self0 (bx, by, bz) frs = Inr self"
  obtains nz nx ny where
    "nz = py_int (bz / dh) + max 2 (py_int (4 / d) + 1) + 1"
    "nx = py_int (bx / d) + max 2 (py_int (4 / d) + 1)"
    "ny = py_int (by / d) + max 2 (py_int (4 / d) + 1)"
    "self_nz self = Some nz" "self_nx self = Some nx" "self_ny self = Some ny"
    "frs \<noteq> [] \<longrightarrow> 0 \<le> nz \<and> 0 \<le> nx \<and> 0 \<le> ny"
    "self_dz self = d" "self_dh self = dh" "d \<noteq> 0" "dh \<noteq> 0"
    "self_margin self = max 2 (py_int (4 / d) + 1)"
    "self_mem_slab self =
       map (\<lambda>fr. fo_mem_slab (slab_accumulate sm (self_sel_m_a self0) (nat nz, nat nx, nat ny) d dh fr)) frs"
    "self_mem_resid_slab self =
       map (\<lambda>fr. fo_mem_resid_slab (slab_accumulate sm (self_sel_m_a self0) (nat nz, nat nx, nat ny) d dh fr)) frs"
    "self_prot_slab self =
       map (\<lambda>fr. fo_prot_slab (slab_accumulate sm (self_sel_m_a self0) (nat nz, nat nx, nat ny) d dh fr)) frs"
    "self_wat_slab self =
       map (\<lambda>fr. fo_wat_slab (slab_accumulate sm (self_sel_m_a self0) (nat nz, nat nx, nat ny) d dh fr)) frs"
    "self_prot_area self =
       map (\<lambda>fr. fo_prot_area (slab_accumulate sm (self_sel_m_a self0) (nat nz, nat nx, nat ny) d dh fr)) frs"
    "self_mem_area self =
       map (\<lambda>fr. fo_mem_area (slab_accumulate sm (self_sel_m_a self0) (nat nz, nat nx, nat ny) d dh fr)) frs"
    "self_wat_area self =
       map (\<lambda>fr. fo_wat_area (slab_accumulate sm (self_sel_m_a self0) (nat nz, nat nx, nat ny) d dh fr)) frs"
    "self_tot_area self =
       map (\<lambda>fr. fo_tot_area (slab_accumulate sm (self_sel_m_a self0) (nat nz, nat nx, nat ny) d dh fr)) frs"
    "self_resid_array self =
       map (\<lambda>fr. fo_resid_array (slab_accumulate sm (self_sel_m_a self0) (nat nz, nat nx, nat ny) d dh fr)) frs"
    "self_resid_array_zx self =
       map (\<lambda>fr. fo_resid_array_zx (slab_accumulate sm (self_sel_m_a self0) (nat nz, nat nx, nat ny) d dh fr)) frs"
    "self_dens_p self = []" "self_dens_m self = []" "self_m_r_per_area self = []"
    "self_mem_slab_frame self = []" "self_mem_resid_slab_frame self = []"
    "self_prot_slab_frame self = []" "self_mem_slab_frame_zx self = []" "self_area_x self = []"
proof -
  note i = mp_init_Inr[OF init]
  from Get_info_Inr[OF gi] have nz: "self_dh self0 \<noteq> 0"
    and loop: "fold_err (frame_step (py_int (bz / self_dh self0) + self_margin self0 + 1,
                               py_int (bx / self_dz self0) + self_margin self0,
                               py_int (by / self_dz self0) + self_margin self0))
           (self0\<lparr> self_nz := Some (py_int (bz / self_dh self0) + self_margin self0 + 1),
                   self_nx := Some (py_int (bx / self_dz self0) + self_margin self0),
                   self_ny := Some (py_int (by / self_dz self0) + self_margin self0) \<rparr>) frs
         = Inr self"
    by blast+
  note r = frame_loop_result[OF loop]
  note dm = frame_loop_dims[OF loop]
  show thesis
    by (rule that[of "py_int (bz / dh) + max 2 (py_int (4 / d) + 1) + 1"
                     "py_int (bx / d) + max 2 (py_int (4 / d) + 1)"
                     "py_int (by / d) + max 2 (py_int (4 / d) + 1)"])
       (use i nz dm in \<open>simp_all add: r Let_def\<close>)
qed

subsection \<open>The small run evaluated\<close>

lemma ex_init: "mp_init [] 4 4 ''PC'' ''PC OL'' = Inr ex_self0"
  by (simp add: ex_self0_def mp_init_def)

lemma ex_run: "Get_info ex_self0 (4, 4, 4) [ex_frame, ex_frame2] = Inr ex_self"
  by code_simp

lemma ex_prep: "Prep4plot ex_self = Inr ex_plot"
  by code_simp

lemma ex_v1: "get3 (self_mem_slab ex_self ! 0) (1, 0, 0) = 1"
  by code_simp

subsection \<open>Areas of one slab\<close>














lemma frame_out_lengths:
  "length (fo_prot_area (slab_accumulate sm sma (nz, nx, ny) dz dh fr)) = nz"
  "length (fo_mem_area (slab_accumulate sm sma (nz, nx, ny) dz dh fr)) = nz"
  "length (fo_wat_area (slab_accumulate sm sma (nz, nx, ny) dz dh fr)) = nz"
  "length (fo_tot_area (slab_accumulate sm sma (nz, nx, ny) dz dh fr)) = nz"
  "length (fo_resid_array (slab_accumulate sm sma (nz, nx, ny) dz dh fr)) = nz"
  "length (fo_resid_array_zx (slab_accumulate sm sma (nz, nx, ny) dz dh fr)) = nz"
  by (simp_all add: slab_accumulate_def Let_def case_prod_beta)




subsection \<open>\<^verbatim>\<open>Prep4plot\<close>\<close>

lemma py_bind_Inr: "py_bind m f = Inr y \<longleftrightarrow> (\<exists>x. m = Inr x \<and> f x = Inr y)"
  by (cases m) (simp_all add: py_bind_def)

lemma py_get_nat: "py_get xs (int n) = Inr x \<longleftrightarrow> n < length xs \<and> x = xs ! n"
  by (auto simp: py_get_def np_index_def)

lemma slab_maps_step_Inr:
  assumes "slab_maps_step f s iz = Inr s'"
  shows "\<exists>a b c d e. s' = s\<lparr> self_mem_slab_frame := a, self_mem_resid_slab_frame := b,
                             self_prot_slab_frame := c, self_area_x := d,
                             self_mem_slab_frame_zx := e \<rparr>"
proof (cases "f = 0")
  case True
  with assms show ?thesis
    unfolding slab_maps_step_def by (cases iz) (auto simp: py_bind_Inr Let_def; blast)
next
  case False
  with assms show ?thesis
    unfolding slab_maps_step_def by (cases iz) (auto simp: py_bind_Inr Let_def; blast)
qed

lemma slab_maps_fold_Inr:
  "fold_err (slab_maps_step f) s izs = Inr s' \<Longrightarrow>
     \<exists>a b c d e. s' = s\<lparr> self_mem_slab_frame := a, self_mem_resid_slab_frame := b,
                          self_prot_slab_frame := c, self_area_x := d,
                          self_mem_slab_frame_zx := e \<rparr>"
proof (induction izs arbitrary: s)
  case Nil
  then have "s' = s" by simp
  then have "s' = s\<lparr> self_mem_slab_frame := self_mem_slab_frame s,
                     self_mem_resid_slab_frame := self_mem_resid_slab_frame s,
                     self_prot_slab_frame := self_prot_slab_frame s,
                     self_area_x := self_area_x s,
                     self_mem_slab_frame_zx := self_mem_slab_frame_zx s \<rparr>"
    by simp
  then show ?case by blast
next
  case (Cons iz izs)
  from Cons.prems obtain s1 where s1: "slab_maps_step f s iz = Inr s1"
    and rest: "fold_err (slab_maps_step f) s1 izs = Inr s'"
    by (auto split: sum.splits)
  from slab_maps_step_Inr[OF s1] obtain a b c d e where
    e1: "s1 = s\<lparr> self_mem_slab_frame := a, self_mem_resid_slab_frame := b,
                  self_prot_slab_frame := c, self_area_x := d, self_mem_slab_frame_zx := e \<rparr>"
    by blast
  from Cons.IH[OF rest] obtain a' b' c' d' e' where
    e2: "s' = s1\<lparr> self_mem_slab_frame := a', self_mem_resid_slab_frame := b',
                   self_prot_slab_frame := c', self_area_x := d', self_mem_slab_frame_zx := e' \<rparr>"
    by blast
  have "s' = s\<lparr> self_mem_slab_frame := a', self_mem_resid_slab_frame := b',
                 self_prot_slab_frame := c', self_area_x := d', self_mem_slab_frame_zx := e' \<rparr>"
    unfolding e2 e1 by simp
  then show ?case by blast
qed

lemma prep_frame_Inr:
  assumes "prep_frame axy s f = Inr s'"
  shows "f < length (self_prot_slab s) \<and> f < length (self_prot_area s) \<and>
         f < length (self_mem_slab s) \<and> f < length (self_resid_array s) \<and>
         (\<exists>a b c d e.
            s' = s\<lparr> self_dens_p := self_dens_p s
                        @ [dens_p0 (self_prot_area s ! f) (number_per_z (self_prot_slab s ! f))],
                    self_dens_m := self_dens_m s
                        @ [dens_m0 (map (\<lambda>a. axy - of_int a) (self_prot_area s ! f))
                             (number_per_z (self_mem_slab s ! f)) (self_resid_array s ! f)],
                    self_m_r_per_area := self_m_r_per_area s
                        @ [dens_r0 (map (\<lambda>a. axy - of_int a) (self_prot_area s ! f))
                             (number_per_z (self_mem_slab s ! f)) (self_resid_array s ! f)],
                    self_mem_slab_frame := a, self_mem_resid_slab_frame := b,
                    self_prot_slab_frame := c, self_area_x := d,
                    self_mem_slab_frame_zx := e \<rparr>)"
proof -
  let ?s1 = "s\<lparr> self_dens_p := self_dens_p s
                        @ [dens_p0 (self_prot_area s ! f) (number_per_z (self_prot_slab s ! f))],
                    self_dens_m := self_dens_m s
                        @ [dens_m0 (map (\<lambda>a. axy - of_int a) (self_prot_area s ! f))
                             (number_per_z (self_mem_slab s ! f)) (self_resid_array s ! f)],
                    self_m_r_per_area := self_m_r_per_area s
                        @ [dens_r0 (map (\<lambda>a. axy - of_int a) (self_prot_area s ! f))
                             (number_per_z (self_mem_slab s ! f)) (self_resid_array s ! f)] \<rparr>"
  from assms obtain zs where
    len: "f < length (self_prot_slab s)" "f < length (self_prot_area s)"
         "f < length (self_mem_slab s)" "f < length (self_resid_array s)"
    and fold: "fold_err (slab_maps_step f) ?s1 (enumerate 0 zs) = Inr s'"
    unfolding prep_frame_def by (auto simp: py_bind_Inr py_get_nat Let_def)
  from slab_maps_fold_Inr[OF fold] obtain a b c d e where
    "s' = ?s1\<lparr> self_mem_slab_frame := a, self_mem_resid_slab_frame := b,
                 self_prot_slab_frame := c, self_area_x := d, self_mem_slab_frame_zx := e \<rparr>"
    by blast
  with len show ?thesis by blast
qed


lemma prep_frames_Inr:
  "fold_err (prep_frame axy) s fs = Inr s' \<Longrightarrow>
     \<exists>a b c d e.
        s' = s\<lparr> self_dens_p := self_dens_p s
                    @ map (\<lambda>f. dens_p0 (self_prot_area s ! f) (number_per_z (self_prot_slab s ! f))) fs,
                self_dens_m := self_dens_m s
                    @ map (\<lambda>f. dens_m0 (map (\<lambda>a. axy - of_int a) (self_prot_area s ! f))
                             (number_per_z (self_mem_slab s ! f)) (self_resid_array s ! f)) fs,
                self_m_r_per_area := self_m_r_per_area s
                    @ map (\<lambda>f. dens_r0 (map (\<lambda>a. axy - of_int a) (self_prot_area s ! f))
                             (number_per_z (self_mem_slab s ! f)) (self_resid_array s ! f)) fs,
                self_mem_slab_frame := a, self_mem_resid_slab_frame := b,
                self_prot_slab_frame := c, self_area_x := d,
                self_mem_slab_frame_zx := e \<rparr>"
proof (induction fs arbitrary: s)
  case Nil
  then have "s' = s" by simp
  then have "s' = s\<lparr> self_dens_p := self_dens_p s @ [], self_dens_m := self_dens_m s @ [],
                     self_m_r_per_area := self_m_r_per_area s @ [],
                     self_mem_slab_frame := self_mem_slab_frame s,
                     self_mem_resid_slab_frame := self_mem_resid_slab_frame s,
                     self_prot_slab_frame := self_prot_slab_frame s,
                     self_area_x := self_area_x s,
                     self_mem_slab_frame_zx := self_mem_slab_frame_zx s \<rparr>"
    by simp
  then show ?case by (simp only: list.map) blast
next
  case (Cons f fs)
  from Cons.prems obtain s1 where s1: "prep_frame axy s f = Inr s1"
    and rest: "fold_err (prep_frame axy) s1 fs = Inr s'"
    by (auto split: sum.splits)
  from prep_frame_Inr[OF s1] obtain a b c d e where
    e1: "s1 = s\<lparr> self_dens_p := self_dens_p s
                        @ [dens_p0 (self_prot_area s ! f) (number_per_z (self_prot_slab s ! f))],
                    self_dens_m := self_dens_m s
                        @ [dens_m0 (map (\<lambda>a. axy - of_int a) (self_prot_area s ! f))
                             (number_per_z (self_mem_slab s ! f)) (self_resid_array s ! f)],
                    self_m_r_per_area := self_m_r_per_area s
                        @ [dens_r0 (map (\<lambda>a. axy - of_int a) (self_prot_area s ! f))
                             (number_per_z (self_mem_slab s ! f)) (self_resid_array s ! f)],
                    self_mem_slab_frame := a, self_mem_resid_slab_frame := b,
                    self_prot_slab_frame := c, self_area_x := d,
                    self_mem_slab_frame_zx := e \<rparr>"
    by blast
  from Cons.IH[OF rest] obtain a' b' c' d' e' where
    e2: "s' = s1\<lparr> self_dens_p := self_dens_p s1
                    @ map (\<lambda>f. dens_p0 (self_prot_area s1 ! f) (number_per_z (self_prot_slab s1 ! f))) fs,
                self_dens_m := self_dens_m s1
                    @ map (\<lambda>f. dens_m0 (map (\<lambda>a. axy - of_int a) (self_prot_area s1 ! f))
                             (number_per_z (self_mem_slab s1 ! f)) (self_resid_array s1 ! f)) fs,
                self_m_r_per_area := self_m_r_per_area s1
                    @ map (\<lambda>f. dens_r0 (map (\<lambda>a. axy - of_int a) (self_prot_area s1 ! f))
                             (number_per_z (self_mem_slab s1 ! f)) (self_resid_array s1 ! f)) fs,
                self_mem_slab_frame := a', self_mem_resid_slab_frame := b',
                self_prot_slab_frame := c', self_area_x := d',
                self_mem_slab_frame_zx := e' \<rparr>"
    by blast
  have "s' = s\<lparr> self_dens_p := self_dens_p s
                    @ map (\<lambda>f. dens_p0 (self_prot_area s ! f) (number_per_z (self_prot_slab s ! f))) (f # fs),
                self_dens_m := self_dens_m s
                    @ map (\<lambda>f. dens_m0 (map (\<lambda>a. axy - of_int a) (self_prot_area s ! f))
                             (number_per_z (self_mem_slab s ! f)) (self_resid_array s ! f)) (f # fs),
                self_m_r_per_area := self_m_r_per_area s
                    @ map (\<lambda>f. dens_r0 (map (\<lambda>a. axy - of_int a) (self_prot_area s ! f))
                             (number_per_z (self_mem_slab s ! f)) (self_resid_array s ! f)) (f # fs),
                self_mem_slab_frame := a', self_mem_resid_slab_frame := b',
                self_prot_slab_frame := c', self_area_x := d',
                self_mem_slab_frame_zx := e' \<rparr>"
    unfolding e2 unfolding e1 by simp
  then show ?case by blast
qed

lemma set_mem_window_Inr:
  assumes "set_mem_window s = Inr sw"
  shows "self_resid_array s \<noteq> [] \<and> argwhere_pos (self_resid_array s ! 0) \<noteq> [] \<and>
         sw = s\<lparr> self_start_mem := Some (int (hd (argwhere_pos (self_resid_array s ! 0))) - 2),
                 self_stop_mem := Some (int (last (argwhere_pos (self_resid_array s ! 0))) + 2),
                 self_step_mem := Some 2 \<rparr>"
proof -
  from assms obtain r0 where r0: "py_get (self_resid_array s) 0 = Inr r0"
    and rest: "(let w = argwhere_pos r0 in
       if w = [] then Inl IndexError
       else Inr (s\<lparr> self_start_mem := Some (int (hd w) - 2),
                       self_stop_mem := Some (int (last w) + 2),
                       self_step_mem := Some 2 \<rparr>)) = Inr sw"
    unfolding set_mem_window_def py_bind_Inr by blast
  from r0 py_get_nat[of "self_resid_array s" 0 r0]
  have l: "0 < length (self_resid_array s)" and e: "r0 = self_resid_array s ! 0"
    by simp_all
  from rest show ?thesis
    unfolding e using l by (auto simp: Let_def split: if_splits)
qed

lemma Prep4plot_Inr:
  assumes "Prep4plot self = Inr self'"
  shows "\<exists>nx ny sw. self_nx self = Some nx \<and> self_ny self = Some ny \<and>
           set_mem_window self = Inr sw \<and>
           fold_err (prep_frame (of_int nx * of_int ny * self_dz self * self_dz self)) sw
             [0..<length (self_resid_array sw)] = Inr self'"
  using assms unfolding Prep4plot_def
  by (auto simp: py_bind_Inr Let_def split: option.splits)


lemma dens_p0_nth:
  "z < length as \<Longrightarrow> z < length ns \<Longrightarrow>
     dens_p0 as ns ! z = (if 0 < as ! z then of_int (ns ! z) / of_int (as ! z) else 0)"
  by (simp add: dens_p0_def)

lemma dens_m0_nth:
  "z < length as \<Longrightarrow> z < length ns \<Longrightarrow> z < length rs \<Longrightarrow>
     dens_m0 as ns rs ! z = (if 0 < as ! z \<and> 0 < rs ! z then of_int (ns ! z) / as ! z else 0)"
  by (simp add: dens_m0_def)

lemma dens_r0_nth:
  "z < length as \<Longrightarrow> z < length ns \<Longrightarrow> z < length rs \<Longrightarrow>
     dens_r0 as ns rs ! z =
       (if 0 < as ! z \<and> 0 < rs ! z
        then (if 1 / 40 < of_int (ns ! z) / as ! z then as ! z / of_int (rs ! z) else 0)
        else 0)"
  by (simp add: dens_r0_def)

lemma number_per_z_nth:
  "z < length v \<Longrightarrow> number_per_z v ! z = sum_list (map sum_list (v ! z))"
  by (simp add: number_per_z_def)

lemma shaped_length: "shaped (nz, nx, ny) v \<Longrightarrow> length v = nz"
  by (simp add: shaped_def)

lemma prep_values:
  assumes init: "mp_init sl d dh sm sma = Inr self0"
    and gi: "Get_info self0 (bx, by, bz) frs = Inr self"
    and pp: "Prep4plot self = Inr self'"
    and dims: "self_nz self = Some nz" "self_nx self = Some nx" "self_ny self = Some ny"
    and f: "f < length frs"
    and z: "int z < nz"
  shows "self_dens_p self' ! f ! z =
           (if 0 < self_prot_area self ! f ! z
            then of_int (sum_list (map sum_list (self_prot_slab self ! f ! z)))
                   / of_int (self_prot_area self ! f ! z)
            else 0)"
    and "self_dens_m self' ! f ! z =
           (if 0 < of_int nx * of_int ny * d * d - of_int (self_prot_area self ! f ! z)
                 \<and> 0 < self_resid_array self ! f ! z
            then of_int (sum_list (map sum_list (self_mem_slab self ! f ! z)))
                   / (of_int nx * of_int ny * d * d - of_int (self_prot_area self ! f ! z))
            else 0)"
    and "self_m_r_per_area self' ! f ! z =
           (if 0 < of_int nx * of_int ny * d * d - of_int (self_prot_area self ! f ! z)
                 \<and> 0 < self_resid_array self ! f ! z
            then (if 1 / 40 < of_int (sum_list (map sum_list (self_mem_slab self ! f ! z)))
                                / (of_int nx * of_int ny * d * d - of_int (self_prot_area self ! f ! z))
                  then (of_int nx * of_int ny * d * d - of_int (self_prot_area self ! f ! z))
                         / of_int (self_resid_array self ! f ! z)
                  else 0)
            else 0)"
proof -
  from Get_info_run[OF init gi] obtain nz' nx' ny' where
    d': "self_nz self = Some nz'" "self_nx self = Some nx'" "self_ny self = Some ny'"
    and dz: "self_dz self = d"
    and fresh: "self_dens_p self = []" "self_dens_m self = []" "self_m_r_per_area self = []"
    and l: "self_mem_slab self =
       map (\<lambda>fr. fo_mem_slab (slab_accumulate sm (self_sel_m_a self0) (nat nz', nat nx', nat ny') d dh fr)) frs"
      "self_prot_slab self =
       map (\<lambda>fr. fo_prot_slab (slab_accumulate sm (self_sel_m_a self0) (nat nz', nat nx', nat ny') d dh fr)) frs"
      "self_prot_area self =
       map (\<lambda>fr. fo_prot_area (slab_accumulate sm (self_sel_m_a self0) (nat nz', nat nx', nat ny') d dh fr)) frs"
      "self_resid_array self =
       map (\<lambda>fr. fo_resid_array (slab_accumulate sm (self_sel_m_a self0) (nat nz', nat nx', nat ny') d dh fr)) frs"
    by blast
  from d' dims have eq: "nz' = nz" "nx' = nx" "ny' = ny" by simp_all
  from z have zn: "z < nat nz" by linarith
  let ?r = "slab_accumulate sm (self_sel_m_a self0) (nat nz, nat nx, nat ny) d dh (frs ! f)"
  have at_f: "self_mem_slab self ! f = fo_mem_slab ?r" "self_prot_slab self ! f = fo_prot_slab ?r"
    "self_prot_area self ! f = fo_prot_area ?r" "self_resid_array self ! f = fo_resid_array ?r"
    using f unfolding l eq by simp_all
  have len: "z < length (self_mem_slab self ! f)" "z < length (self_prot_slab self ! f)"
    "z < length (self_prot_area self ! f)" "z < length (self_resid_array self ! f)"
    unfolding at_f using zn
    by (simp_all add: frame_out_lengths shaped_length[OF slab_accumulate_shaped(1)]
        shaped_length[OF slab_accumulate_shaped(2)])
  have nfr: "length (self_resid_array self) = length frs" unfolding l by simp
  from Prep4plot_Inr[OF pp] dims obtain sw where
    sw: "set_mem_window self = Inr sw"
    and loop: "fold_err (prep_frame (of_int nx * of_int ny * self_dz self * self_dz self)) sw
             [0..<length (self_resid_array sw)] = Inr self'"
    by auto
  from set_mem_window_Inr[OF sw] have sweq:
    "sw = self\<lparr> self_start_mem := Some (int (hd (argwhere_pos (self_resid_array self ! 0))) - 2),
                 self_stop_mem := Some (int (last (argwhere_pos (self_resid_array self ! 0))) + 2),
                 self_step_mem := Some 2 \<rparr>"
    by blast
  from prep_frames_Inr[OF loop] obtain a b c d' e where
    res: "self' = sw\<lparr> self_dens_p := self_dens_p sw
                    @ map (\<lambda>f. dens_p0 (self_prot_area sw ! f) (number_per_z (self_prot_slab sw ! f)))
                        [0..<length (self_resid_array sw)],
                self_dens_m := self_dens_m sw
                    @ map (\<lambda>f. dens_m0 (map (\<lambda>a. of_int nx * of_int ny * self_dz self * self_dz self
                                                - of_int a) (self_prot_area sw ! f))
                             (number_per_z (self_mem_slab sw ! f)) (self_resid_array sw ! f))
                        [0..<length (self_resid_array sw)],
                self_m_r_per_area := self_m_r_per_area sw
                    @ map (\<lambda>f. dens_r0 (map (\<lambda>a. of_int nx * of_int ny * self_dz self * self_dz self
                                                - of_int a) (self_prot_area sw ! f))
                             (number_per_z (self_mem_slab sw ! f)) (self_resid_array sw ! f))
                        [0..<length (self_resid_array sw)],
                self_mem_slab_frame := a, self_mem_resid_slab_frame := b,
                self_prot_slab_frame := c, self_area_x := d',
                self_mem_slab_frame_zx := e \<rparr>"
    by blast
  have p: "self_dens_p self' ! f =
             dens_p0 (self_prot_area self ! f) (number_per_z (self_prot_slab self ! f))"
    and m: "self_dens_m self' ! f =
             dens_m0 (map (\<lambda>a. of_int nx * of_int ny * d * d - of_int a) (self_prot_area self ! f))
               (number_per_z (self_mem_slab self ! f)) (self_resid_array self ! f)"
    and r: "self_m_r_per_area self' ! f =
             dens_r0 (map (\<lambda>a. of_int nx * of_int ny * d * d - of_int a) (self_prot_area self ! f))
               (number_per_z (self_mem_slab self ! f)) (self_resid_array self ! f)"
    unfolding res unfolding sweq using f nfr fresh dz by simp_all
  show "self_dens_p self' ! f ! z =
           (if 0 < self_prot_area self ! f ! z
            then of_int (sum_list (map sum_list (self_prot_slab self ! f ! z)))
                   / of_int (self_prot_area self ! f ! z)
            else 0)"
    unfolding p using len by (simp add: dens_p0_nth number_per_z_def)
  show "self_dens_m self' ! f ! z =
           (if 0 < of_int nx * of_int ny * d * d - of_int (self_prot_area self ! f ! z)
                 \<and> 0 < self_resid_array self ! f ! z
            then of_int (sum_list (map sum_list (self_mem_slab self ! f ! z)))
                   / (of_int nx * of_int ny * d * d - of_int (self_prot_area self ! f ! z))
            else 0)"
    unfolding m using len by (simp add: dens_m0_nth number_per_z_def)
  show "self_m_r_per_area self' ! f ! z =
           (if 0 < of_int nx * of_int ny * d * d - of_int (self_prot_area self ! f ! z)
                 \<and> 0 < self_resid_array self ! f ! z
            then (if 1 / 40 < of_int (sum_list (map sum_list (self_mem_slab self ! f ! z)))
                                / (of_int nx * of_int ny * d * d - of_int (self_prot_area self ! f ! z))
                  then (of_int nx * of_int ny * d * d - of_int (self_prot_area self ! f ! z))
                         / of_int (self_resid_array self ! f ! z)
                  else 0)
            else 0)"
    unfolding r using len by (simp add: dens_r0_nth number_per_z_def)
qed









subsection \<open>The residue lists\<close>

lemma head_step_resid:
  assumes "length (fst (snd s)) = nz"
  shows "length (fst (snd (head_step sh dz dh s t))) = nz"
    and "z < nz \<Longrightarrow>
           set (fst (snd (head_step sh dz dh s t)) ! z) =
             set (fst (snd s) ! z) \<union>
               (if np_index nz (fst (cell_index dz dh t)) = Some z then {resid t} else {})"
    and "z < nz \<Longrightarrow> distinct (fst (snd s) ! z)
           \<Longrightarrow> distinct (fst (snd (head_step sh dz dh s t)) ! z)"
proof -
  obtain v rl rlzx where s: "s = (v, rl, rlzx)" by (cases s)
  with assms have l: "length rl = nz" by simp
  show "length (fst (snd (head_step sh dz dh s t))) = nz"
    using l unfolding s head_step_def by (simp add: Let_def split: option.splits)
  show "set (fst (snd (head_step sh dz dh s t)) ! z) =
             set (fst (snd s) ! z) \<union>
               (if np_index nz (fst (cell_index dz dh t)) = Some z then {resid t} else {})"
    if "z < nz"
    using l that unfolding s head_step_def
    by (auto simp: Let_def nth_list_update split: option.splits dest: np_index_Some_less)
  show "distinct (fst (snd (head_step sh dz dh s t)) ! z)"
    if "z < nz" "distinct (fst (snd s) ! z)"
    using l that unfolding s head_step_def
    by (auto simp: Let_def nth_list_update split: option.splits dest: np_index_Some_less)
qed

lemma head_fold_resid:
  assumes "length (fst (snd s)) = nz"
  shows "length (fst (snd (foldl (head_step sh dz dh) s ts))) = nz \<and>
         (\<forall>z<nz. set (fst (snd (foldl (head_step sh dz dh) s ts)) ! z) =
                    set (fst (snd s) ! z) \<union>
                      resid ` {t \<in> set ts. np_index nz (fst (cell_index dz dh t)) = Some z}) \<and>
         (\<forall>z<nz. distinct (fst (snd s) ! z)
                    \<longrightarrow> distinct (fst (snd (foldl (head_step sh dz dh) s ts)) ! z))"
  using assms
proof (induction ts arbitrary: s)
  case Nil
  then show ?case by simp
next
  case (Cons t ts)
  note st = head_step_resid[OF Cons.prems, where sh=sh and dz=dz and dh=dh and t=t]
  from Cons.IH[OF st(1)] st(2,3) show ?case
    by (auto split: if_splits)
qed


lemma np_index3_fst:
  "np_index3 (nz, nx, ny) idx = Some (z, x, y) \<Longrightarrow> np_index nz (fst idx) = Some z"
  by (cases idx) (auto simp: np_index3_def split: option.splits)

lemma same_step_resid:
  assumes "length (fst (snd s)) = nz"
  shows "length (fst (snd (mem_same_step (nz, nx, ny) dz dh s t))) = nz"
    and "z < nz \<Longrightarrow>
           set (fst (snd (mem_same_step (nz, nx, ny) dz dh s t)) ! z) =
             set (fst (snd s) ! z) \<union>
               (if \<exists>x y. np_index3 (nz, nx, ny) (cell_index dz dh t) = Some (z, x, y)
                then {resid t} else {})"
    and "z < nz \<Longrightarrow> distinct (fst (snd s) ! z)
           \<Longrightarrow> distinct (fst (snd (mem_same_step (nz, nx, ny) dz dh s t)) ! z)"
proof -
  obtain v rl rlzx out where s: "s = (v, rl, rlzx, out)" by (cases s)
  with assms have l: "length rl = nz" by simp
  show "length (fst (snd (mem_same_step (nz, nx, ny) dz dh s t))) = nz"
    using l unfolding s mem_same_step_def by (simp add: Let_def split: option.splits)
  show "set (fst (snd (mem_same_step (nz, nx, ny) dz dh s t)) ! z) =
             set (fst (snd s) ! z) \<union>
               (if \<exists>x y. np_index3 (nz, nx, ny) (cell_index dz dh t) = Some (z, x, y)
                then {resid t} else {})"
    if "z < nz"
  proof (cases "np_index3 (nz, nx, ny) (cell_index dz dh t)")
    case None
    then show ?thesis unfolding s mem_same_step_def by (simp add: Let_def)
  next
    case (Some k)
    obtain a b c where k: "k = (a, b, c)" by (cases k)
    from np_index3_fst[OF Some[unfolded k]] have a: "np_index nz (fst (cell_index dz dh t)) = Some a" .
    from np_index_Some_less[OF a] have "a < nz" .
    then show ?thesis
      using l that Some a unfolding s mem_same_step_def k
      by (auto simp: Let_def nth_list_update split: option.splits)
  qed
  show "distinct (fst (snd (mem_same_step (nz, nx, ny) dz dh s t)) ! z)"
    if "z < nz" "distinct (fst (snd s) ! z)"
  proof (cases "np_index3 (nz, nx, ny) (cell_index dz dh t)")
    case None
    then show ?thesis using that unfolding s mem_same_step_def by (simp add: Let_def)
  next
    case (Some k)
    obtain a b c where k: "k = (a, b, c)" by (cases k)
    from np_index3_fst[OF Some[unfolded k]] have a: "np_index nz (fst (cell_index dz dh t)) = Some a" .
    from np_index_Some_less[OF a] have "a < nz" .
    then show ?thesis
      using l that Some a unfolding s mem_same_step_def k
      by (auto simp: Let_def nth_list_update split: option.splits)
  qed
qed

lemma same_fold_resid:
  assumes "length (fst (snd s)) = nz"
  shows "length (fst (snd (foldl (mem_same_step (nz, nx, ny) dz dh) s ts))) = nz \<and>
         (\<forall>z<nz. set (fst (snd (foldl (mem_same_step (nz, nx, ny) dz dh) s ts)) ! z) =
                    set (fst (snd s) ! z) \<union>
                      resid ` {t \<in> set ts. \<exists>x y. np_index3 (nz, nx, ny) (cell_index dz dh t) = Some (z, x, y)}) \<and>
         (\<forall>z<nz. distinct (fst (snd s) ! z)
                    \<longrightarrow> distinct (fst (snd (foldl (mem_same_step (nz, nx, ny) dz dh) s ts)) ! z))"
  using assms
proof (induction ts arbitrary: s)
  case Nil
  then show ?case by simp
next
  case (Cons t ts)
  note st = same_step_resid[OF Cons.prems, where nx=nx and ny=ny and dz=dz and dh=dh and t=t]
  from Cons.IH[OF st(1)] st(2,3) show ?case
    by (auto split: if_splits)
qed

lemma in_grid_np_index:
  assumes "in_grid (nz, nx, ny) idx"
  shows "np_index nz (fst idx) = Some z \<longleftrightarrow> fst idx = int z"
    and "(\<exists>x y. np_index3 (nz, nx, ny) idx = Some (z, x, y)) \<longleftrightarrow> fst idx = int z"
  using assms
  by (cases idx; auto simp: in_grid_def np_index_def np_index3_def)+

lemma membrane_pass_resid:
  assumes grid: "\<forall>t\<in>set (u_mem_sel_m fr). in_grid (nz, nx, ny) (cell_index dz dh t)"
    and z: "z < nz"
  shows "distinct (fst (snd (snd (membrane_pass sm sma (nz, nx, ny) dz dh fr))) ! z)"
    and "set (fst (snd (snd (membrane_pass sm sma (nz, nx, ny) dz dh fr))) ! z) =
           resid ` {t \<in> set (u_mem_sel_m fr). fst (cell_index dz dh t) = int z}"
proof -
  let ?rl = "fst (snd (snd (membrane_pass sm sma (nz, nx, ny) dz dh fr)))"
  have "distinct (?rl ! z) \<and>
        set (?rl ! z) = resid ` {t \<in> set (u_mem_sel_m fr). fst (cell_index dz dh t) = int z}"
  proof (cases "sma \<noteq> sm")
    case True
    let ?s0 = "(zeros3 (nz, nx, ny), replicate nz ([]::int list), replicate nz (replicate nx ([]::int list)))"
    have rl: "?rl = fst (snd (foldl (head_step (nz, nx, ny) dz dh) ?s0 (u_mem_sel_m fr)))"
      using True by (simp add: membrane_pass_def Let_def case_prod_beta)
    have l0: "length (fst (snd ?s0)) = nz" by simp
    from head_fold_resid[OF l0, of "(nz, nx, ny)" dz dh "u_mem_sel_m fr"] z
    have "distinct (?rl ! z)"
      and "set (?rl ! z) = resid ` {t \<in> set (u_mem_sel_m fr).
                                     np_index nz (fst (cell_index dz dh t)) = Some z}"
      unfolding rl by simp_all
    moreover have "{t \<in> set (u_mem_sel_m fr). np_index nz (fst (cell_index dz dh t)) = Some z}
                 = {t \<in> set (u_mem_sel_m fr). fst (cell_index dz dh t) = int z}"
      using grid in_grid_np_index(1) by blast
    ultimately show ?thesis by simp
  next
    case False
    let ?s0 = "(zeros3 (nz, nx, ny), replicate nz ([]::int list), replicate nz (replicate nx ([]::int list)),
                 [] :: warning list)"
    have rl: "?rl = fst (snd (foldl (mem_same_step (nz, nx, ny) dz dh) ?s0 (u_mem_sel_m fr)))"
      using False by (simp add: membrane_pass_def Let_def case_prod_beta)
    have l0: "length (fst (snd ?s0)) = nz" by simp
    from same_fold_resid[OF l0, of nx ny dz dh "u_mem_sel_m fr"] z
    have "distinct (?rl ! z)"
      and "set (?rl ! z) = resid ` {t \<in> set (u_mem_sel_m fr).
                \<exists>x y. np_index3 (nz, nx, ny) (cell_index dz dh t) = Some (z, x, y)}"
      unfolding rl by simp_all
    moreover have "{t \<in> set (u_mem_sel_m fr).
                \<exists>x y. np_index3 (nz, nx, ny) (cell_index dz dh t) = Some (z, x, y)}
                 = {t \<in> set (u_mem_sel_m fr). fst (cell_index dz dh t) = int z}"
      using grid in_grid_np_index(2) by blast
    ultimately show ?thesis by simp
  qed
  then show "distinct (?rl ! z)"
    and "set (?rl ! z) = resid ` {t \<in> set (u_mem_sel_m fr). fst (cell_index dz dh t) = int z}"
    by blast+
qed

lemma fo_resid_array_nth:
  "z < nz \<Longrightarrow>
     fo_resid_array (slab_accumulate sm sma (nz, nx, ny) dz dh fr) ! z =
       int (length (fst (snd (snd (membrane_pass sm sma (nz, nx, ny) dz dh fr))) ! z))"
  by (simp add: slab_accumulate_def Let_def case_prod_beta)

lemma slab_residue_count:
  assumes grid: "\<forall>t\<in>set (u_mem_sel_m fr). in_grid (nz, nx, ny) (cell_index dz dh t)"
    and z: "z < nz"
  shows "fo_resid_array (slab_accumulate sm sma (nz, nx, ny) dz dh fr) ! z
           = spec_residue_count (nz, nx, ny) dz dh (u_mem_sel_m fr) z"
proof -
  let ?rl = "fst (snd (snd (membrane_pass sm sma (nz, nx, ny) dz dh fr)))"
  note r = membrane_pass_resid[OF grid z, of sm sma]
  have "length (?rl ! z) = card (set (?rl ! z))"
    using r(1) by (simp add: distinct_card)
  also have "\<dots> = card (resid ` {t \<in> set (u_mem_sel_m fr). fst (cell_index dz dh t) = int z})"
    by (simp add: r(2))
  also have "resid ` {t \<in> set (u_mem_sel_m fr). fst (cell_index dz dh t) = int z}
       = set (map resid (filter (\<lambda>t. in_grid (nz, nx, ny) (cell_index dz dh t)
                                     \<and> fst (cell_index dz dh t) = int z) (u_mem_sel_m fr)))"
    using grid by auto
  also have "card \<dots> = length (remdups (map resid (filter (\<lambda>t. in_grid (nz, nx, ny) (cell_index dz dh t)
                                     \<and> fst (cell_index dz dh t) = int z) (u_mem_sel_m fr))))"
    by (simp only: length_remdups_card_conv)
  finally show ?thesis
    by (simp add: fo_resid_array_nth[OF z] spec_residue_count_def)
qed

lemma ex_side_run: "Get_info ex_self0 (4, 4, 4) [ex_frame_side] = Inr ex_side"
  by code_simp

lemma ex_x_run: "Get_info ex_self0 (4, 4, 4) [ex_frame_x] = Inr ex_x"
  by code_simp

subsection \<open>The per-(z,x) residue lists when the two selections are the same\<close>

lemma np_index3_snd:
  "np_index3 (nz, nx, ny) idx = Some (z, x, y) \<Longrightarrow> np_index nx (fst (snd idx)) = Some x"
  by (cases idx) (auto simp: np_index3_def split: option.splits)

lemma sum_length_update:
  "x < length row \<Longrightarrow>
     sum_list (map length (row[x := row ! x @ [n]])) = Suc (sum_list (map length row))"
proof (induction row arbitrary: x)
  case Nil
  then show ?case by simp
next
  case (Cons r row)
  then show ?case by (cases x) simp_all
qed

lemma same_step_zx:
  assumes l: "length (fst (snd s)) = nz" "length (fst (snd (snd s))) = nz"
    and row: "\<forall>z<nz. length (fst (snd (snd s)) ! z) = nx"
    and inv: "\<forall>z<nz. sum_list (map length (fst (snd (snd s)) ! z)) = length (fst (snd s) ! z)"
  shows "length (fst (snd (mem_same_step (nz, nx, ny) dz dh s t))) = nz \<and>
         length (fst (snd (snd (mem_same_step (nz, nx, ny) dz dh s t)))) = nz \<and>
         (\<forall>z<nz. length (fst (snd (snd (mem_same_step (nz, nx, ny) dz dh s t))) ! z) = nx) \<and>
         (\<forall>z<nz. sum_list (map length (fst (snd (snd (mem_same_step (nz, nx, ny) dz dh s t))) ! z))
                    = length (fst (snd (mem_same_step (nz, nx, ny) dz dh s t)) ! z))"
proof -
  obtain v rl rlzx out where s: "s = (v, rl, rlzx, out)" by (cases s)
  from l row inv have l': "length rl = nz" "length rlzx = nz"
    and row': "\<forall>z<nz. length (rlzx ! z) = nx"
    and inv': "\<forall>z<nz. sum_list (map length (rlzx ! z)) = length (rl ! z)"
    unfolding s by simp_all
  show ?thesis
  proof (cases "np_index3 (nz, nx, ny) (cell_index dz dh t)")
    case None
    then show ?thesis using l' row' inv' unfolding s mem_same_step_def by (simp add: Let_def)
  next
    case (Some k)
    obtain a b c where k: "k = (a, b, c)" by (cases k)
    from np_index3_fst[OF Some[unfolded k]] have a: "np_index nz (fst (cell_index dz dh t)) = Some a" .
    from np_index3_snd[OF Some[unfolded k]] have b: "np_index nx (fst (snd (cell_index dz dh t))) = Some b" .
    from np_index_Some_less[OF a] have an: "a < nz" .
    from np_index_Some_less[OF b] have bn: "b < nx" .
    from row' an have ra: "length (rlzx ! a) = nx" by simp
    show ?thesis
    proof (cases "resid t \<in> set (rl ! a)")
      case True
      then show ?thesis
        using l' row' inv' Some a unfolding s mem_same_step_def k by (simp add: Let_def)
    next
      case False
      have res: "mem_same_step (nz, nx, ny) dz dh s t =
              (upd3 v (a, b, c) (\<lambda>c. c + 1), rl[a := rl ! a @ [resid t]],
               rlzx[a := (rlzx ! a)[b := rlzx ! a ! b @ [resid t]]], out)"
        using False l' ra Some a b unfolding s mem_same_step_def k by (simp add: Let_def)
      have "sum_list (map length ((rlzx ! a)[b := rlzx ! a ! b @ [resid t]]))
              = Suc (sum_list (map length (rlzx ! a)))"
        using bn ra by (simp add: sum_length_update)
      then show ?thesis
        unfolding res using l' row' inv' an
        by (auto simp: nth_list_update)
    qed
  qed
qed

lemma same_fold_zx:
  assumes "length (fst (snd s)) = nz" "length (fst (snd (snd s))) = nz"
    and "\<forall>z<nz. length (fst (snd (snd s)) ! z) = nx"
    and "\<forall>z<nz. sum_list (map length (fst (snd (snd s)) ! z)) = length (fst (snd s) ! z)"
  shows "length (fst (snd (snd (foldl (mem_same_step (nz, nx, ny) dz dh) s ts)))) = nz \<and>
         (\<forall>z<nz. length (fst (snd (snd (foldl (mem_same_step (nz, nx, ny) dz dh) s ts))) ! z) = nx) \<and>
         (\<forall>z<nz. sum_list (map length (fst (snd (snd (foldl (mem_same_step (nz, nx, ny) dz dh) s ts))) ! z))
                    = length (fst (snd (foldl (mem_same_step (nz, nx, ny) dz dh) s ts)) ! z))"
  using assms
proof (induction ts arbitrary: s)
  case Nil
  then show ?case by simp
next
  case (Cons t ts)
  from same_step_zx[OF Cons.prems, of ny dz dh t]
  have "length (fst (snd (mem_same_step (nz, nx, ny) dz dh s t))) = nz"
    "length (fst (snd (snd (mem_same_step (nz, nx, ny) dz dh s t)))) = nz"
    "\<forall>z<nz. length (fst (snd (snd (mem_same_step (nz, nx, ny) dz dh s t))) ! z) = nx"
    "\<forall>z<nz. sum_list (map length (fst (snd (snd (mem_same_step (nz, nx, ny) dz dh s t))) ! z))
                    = length (fst (snd (mem_same_step (nz, nx, ny) dz dh s t)) ! z)"
    by blast+
  from Cons.IH[OF this] show ?case by simp
qed

section \<open>The claims\<close>

text \<open>
  C1. In every processed frame and every grid cell: where the membrane volume is positive
  the protein volume is 0; where the membrane or the protein volume is positive the water
  mark is 0; and the water mark is 0 or 1.
\<close>

theorem exclusion_priority:
  assumes init: "mp_init sl d dh sm sma = Inr self0"
    and gi: "Get_info self0 (bx, by, bz) frs = Inr self"
    and dims: "self_nz self = Some nz" "self_nx self = Some nx" "self_ny self = Some ny"
    and f: "f < length frs"
    and cell: "int z < nz" "int x < nx" "int y < ny"
  shows "(0 < get3 (self_mem_slab self ! f) (z, x, y)
            \<longrightarrow> get3 (self_prot_slab self ! f) (z, x, y) = 0) \<and>
         (0 < get3 (self_mem_slab self ! f) (z, x, y) \<or> 0 < get3 (self_prot_slab self ! f) (z, x, y)
            \<longrightarrow> get3 (self_wat_slab self ! f) (z, x, y) = 0) \<and>
         (get3 (self_wat_slab self ! f) (z, x, y) = 0 \<or> get3 (self_wat_slab self ! f) (z, x, y) = 1)"
proof -
  from Get_info_run[OF init gi] obtain nz' nx' ny' where
    d': "self_nz self = Some nz'" "self_nx self = Some nx'" "self_ny self = Some ny'"
    and m: "self_mem_slab self =
       map (\<lambda>fr. fo_mem_slab (slab_accumulate sm (self_sel_m_a self0) (nat nz', nat nx', nat ny') d dh fr)) frs"
    and p: "self_prot_slab self =
       map (\<lambda>fr. fo_prot_slab (slab_accumulate sm (self_sel_m_a self0) (nat nz', nat nx', nat ny') d dh fr)) frs"
    and w: "self_wat_slab self =
       map (\<lambda>fr. fo_wat_slab (slab_accumulate sm (self_sel_m_a self0) (nat nz', nat nx', nat ny') d dh fr)) frs"
    by blast
  from d' dims have eq: "nz' = nz" "nx' = nx" "ny' = ny" by simp_all
  from cell have c: "z < nat nz" "x < nat nx" "y < nat ny" by linarith+
  note e = slab_accumulate_exclusion[OF c, of sm "self_sel_m_a self0" d dh "frs ! f"]
  show ?thesis
    using e f unfolding m p w eq by auto
qed

theorem exclusion_priority_witness:
  "mp_init [] 4 4 ''PC'' ''PC OL'' = Inr ex_self0 \<and>
   Get_info ex_self0 (4, 4, 4) [ex_frame, ex_frame2] = Inr ex_self \<and>
   self_nz ex_self = Some 4 \<and> self_nx ex_self = Some 3 \<and> self_ny ex_self = Some 3 \<and>
   0 < length [ex_frame, ex_frame2] \<and>
   0 < get3 (self_mem_slab ex_self ! 0) (1, 0, 0) \<and>
   get3 (self_prot_slab ex_self ! 0) (1, 0, 0) = 0 \<and>
   get3 (self_wat_slab ex_self ! 0) (1, 0, 0) = 0"
proof -
  have d: "self_nz ex_self = Some 4" "self_nx ex_self = Some 3" "self_ny ex_self = Some 3"
    by code_simp+
  have m: "0 < get3 (self_mem_slab ex_self ! 0) (1, 0, 0)"
    by code_simp
  have f: "0 < length [ex_frame, ex_frame2]" by simp
  have c: "int 1 < 4" "int 0 < 3" by simp_all
  from exclusion_priority[OF ex_init ex_run d f c(1) c(2) c(2)] m
  have "get3 (self_prot_slab ex_self ! 0) (1, 0, 0) = 0"
    and "get3 (self_wat_slab ex_self ! 0) (1, 0, 0) = 0"
    by blast+
  with ex_init ex_run d m f show ?thesis by blast
qed













text \<open>
  C4. In every frame and z-slab: where the protein area is 0 the protein density is exactly
  0, and otherwise it is the number of protein atoms of the slab over that area; where the
  membrane denominator \<open>nx * ny * dz\<^sup>2 - protein area\<close> is 0, or the residue count is 0, the
  membrane density is exactly 0, and where both are positive it is the number of membrane
  atoms of the slab over that denominator. Densities are rationals here, so a value that
  is not a number cannot arise: what is proved is that no division by zero is evaluated.
\<close>

theorem zero_denominator_density:
  assumes init: "mp_init sl d dh sm sma = Inr self0"
    and gi: "Get_info self0 (bx, by, bz) frs = Inr self"
    and pp: "Prep4plot self = Inr self'"
    and dims: "self_nz self = Some nz" "self_nx self = Some nx" "self_ny self = Some ny"
    and f: "f < length frs"
    and z: "int z < nz"
  shows "let a_p = self_prot_area self ! f ! z;
             n_p = sum_list (map sum_list (self_prot_slab self ! f ! z));
             a_m = of_int nx * of_int ny * d * d - of_int a_p;
             n_m = sum_list (map sum_list (self_mem_slab self ! f ! z));
             r = self_resid_array self ! f ! z
         in (a_p = 0 \<longrightarrow> self_dens_p self' ! f ! z = 0) \<and>
            (0 < a_p \<longrightarrow> self_dens_p self' ! f ! z = of_int n_p / of_int a_p) \<and>
            (a_m = 0 \<or> r = 0 \<longrightarrow> self_dens_m self' ! f ! z = 0) \<and>
            (0 < a_m \<and> 0 < r \<longrightarrow> self_dens_m self' ! f ! z = of_int n_m / a_m)"
  using prep_values(1,2)[OF init gi pp dims f z]
  by (simp add: Let_def)

theorem zero_denominator_density_witness:
  "mp_init [] 4 4 ''PC'' ''PC OL'' = Inr ex_self0 \<and>
   Get_info ex_self0 (4, 4, 4) [ex_frame, ex_frame2] = Inr ex_self \<and>
   Prep4plot ex_self = Inr ex_plot \<and>
   self_nz ex_self = Some 4 \<and> self_nx ex_self = Some 3 \<and> self_ny ex_self = Some 3 \<and>
   0 < length [ex_frame, ex_frame2] \<and> int 0 < 4 \<and>
   self_prot_area ex_self ! 0 ! 0 = 0 \<and> self_resid_array ex_self ! 0 ! 0 = 0 \<and>
   self_dens_p ex_plot ! 0 ! 0 = 0 \<and> self_dens_m ex_plot ! 0 ! 0 = 0"
proof -
  have d: "self_nz ex_self = Some 4" "self_nx ex_self = Some 3" "self_ny ex_self = Some 3"
    by code_simp+
  have f: "0 < length [ex_frame, ex_frame2]" by simp
  have z: "int 0 < 4" by simp
  have a: "self_prot_area ex_self ! 0 ! 0 = 0" "self_resid_array ex_self ! 0 ! 0 = 0"
    by code_simp+
  note t = zero_denominator_density[OF ex_init ex_run ex_prep d f z, unfolded Let_def]
  from t a(1) have c1: "self_dens_p ex_plot ! 0 ! 0 = 0" by blast
  from t a(2) have c2: "self_dens_m ex_plot ! 0 ! 0 = 0" by blast
  show ?thesis by (intro conjI ex_init ex_run ex_prep d f z a c1 c2)
qed

text \<open>
  C5. In every frame and z-slab the area per residue is nonzero only if the membrane density
  of that slab exceeds \<open>0.025\<close> and the residue count is positive (the membrane-available
  area is then positive as well); in every other case it is exactly 0; and when the density
  exceeds the threshold and the residue count is positive it is the membrane-available area
  \<open>nx * ny * dz\<^sup>2 - protein area\<close> divided by the residue count.
\<close>

theorem area_per_residue_threshold:
  assumes init: "mp_init sl d dh sm sma = Inr self0"
    and gi: "Get_info self0 (bx, by, bz) frs = Inr self"
    and pp: "Prep4plot self = Inr self'"
    and dims: "self_nz self = Some nz" "self_nx self = Some nx" "self_ny self = Some ny"
    and f: "f < length frs"
    and z: "int z < nz"
  shows "let a_m = of_int nx * of_int ny * d * d - of_int (self_prot_area self ! f ! z);
             r = self_resid_array self ! f ! z;
             dens = self_dens_m self' ! f ! z;
             apr = self_m_r_per_area self' ! f ! z
         in (apr \<noteq> 0 \<longrightarrow> 1 / 40 < dens \<and> 0 < r \<and> 0 < a_m) \<and>
            (\<not> (1 / 40 < dens \<and> 0 < r) \<longrightarrow> apr = 0) \<and>
            (1 / 40 < dens \<and> 0 < r \<longrightarrow> apr = a_m / of_int r)"
  using prep_values(2,3)[OF init gi pp dims f z]
  by (auto simp: Let_def split: if_splits)

theorem area_per_residue_threshold_witness:
  "mp_init [] 4 4 ''PC'' ''PC OL'' = Inr ex_self0 \<and>
   Get_info ex_self0 (4, 4, 4) [ex_frame, ex_frame2] = Inr ex_self \<and>
   Prep4plot ex_self = Inr ex_plot \<and>
   self_nz ex_self = Some 4 \<and> self_nx ex_self = Some 3 \<and> self_ny ex_self = Some 3 \<and>
   0 < length [ex_frame, ex_frame2] \<and> int 1 < 4 \<and>
   1 / 40 < self_dens_m ex_plot ! 0 ! 1 \<and> 0 < self_resid_array ex_self ! 0 ! 1 \<and>
   self_m_r_per_area ex_plot ! 0 ! 1
     = (3 * 3 * 4 * 4 - rat_of_int (self_prot_area ex_self ! 0 ! 1))
         / rat_of_int (self_resid_array ex_self ! 0 ! 1) \<and>
   self_m_r_per_area ex_plot ! 0 ! 1 \<noteq> 0"
proof -
  have d: "self_nz ex_self = Some 4" "self_nx ex_self = Some 3" "self_ny ex_self = Some 3"
    by code_simp+
  have f: "0 < length [ex_frame, ex_frame2]" by simp
  have z: "int 1 < 4" by simp
  have a: "1 / 40 < self_dens_m ex_plot ! 0 ! 1" "0 < self_resid_array ex_self ! 0 ! 1"
    by code_simp+
  have n: "self_m_r_per_area ex_plot ! 0 ! 1 \<noteq> 0" by code_simp
  note t = area_per_residue_threshold[OF ex_init ex_run ex_prep d f z, unfolded Let_def]
  from t a have "self_m_r_per_area ex_plot ! 0 ! 1
     = (rat_of_int 3 * rat_of_int 3 * 4 * 4 - rat_of_int (self_prot_area ex_self ! 0 ! 1))
         / rat_of_int (self_resid_array ex_self ! 0 ! 1)"
    by blast
  then have c: "self_m_r_per_area ex_plot ! 0 ! 1
     = (3 * 3 * 4 * 4 - rat_of_int (self_prot_area ex_self ! 0 ! 1))
         / rat_of_int (self_resid_array ex_self ! 0 ! 1)"
    by simp
  show ?thesis by (intro conjI ex_init ex_run ex_prep d f z a c n)
qed




text \<open>
  C9 (as amended). In a frame whose head-subset atoms all have their index inside the grid,
  the residue count of every z-slab is the number of distinct residue ids among the
  head-subset atoms mapped to that slab: a residue id registered from two or more atoms of
  the slab counts once.
\<close>

theorem residue_count_distinct:
  assumes init: "mp_init sl d dh sm sma = Inr self0"
    and gi: "Get_info self0 (bx, by, bz) frs = Inr self"
    and dims: "self_nz self = Some nz" "self_nx self = Some nx" "self_ny self = Some ny"
    and f: "f < length frs"
    and z: "int z < nz"
    and grid: "\<forall>t\<in>set (u_mem_sel_m (frs ! f)). in_grid (nat nz, nat nx, nat ny) (cell_index d dh t)"
  shows "self_resid_array self ! f ! z
           = spec_residue_count (nat nz, nat nx, nat ny) d dh (u_mem_sel_m (frs ! f)) z
         \<and> self_resid_array self ! f ! z
           = int (card (resid ` {t \<in> set (u_mem_sel_m (frs ! f)). fst (cell_index d dh t) = int z}))"
proof -
  from Get_info_run[OF init gi] obtain nz' nx' ny' where
    d': "self_nz self = Some nz'" "self_nx self = Some nx'" "self_ny self = Some ny'"
    and ra: "self_resid_array self =
       map (\<lambda>fr. fo_resid_array (slab_accumulate sm (self_sel_m_a self0) (nat nz', nat nx', nat ny') d dh fr)) frs"
    by blast
  from d' dims have eq: "nz' = nz" "nx' = nx" "ny' = ny" by simp_all
  from z have zn: "z < nat nz" by linarith
  have at_f: "self_resid_array self ! f =
       fo_resid_array (slab_accumulate sm (self_sel_m_a self0) (nat nz, nat nx, nat ny) d dh (frs ! f))"
    using f unfolding ra eq by simp
  have c1: "self_resid_array self ! f ! z
           = spec_residue_count (nat nz, nat nx, nat ny) d dh (u_mem_sel_m (frs ! f)) z"
    unfolding at_f by (rule slab_residue_count[OF grid zn])
  have "resid ` {t \<in> set (u_mem_sel_m (frs ! f)). fst (cell_index d dh t) = int z}
       = set (map resid (filter (\<lambda>t. in_grid (nat nz, nat nx, nat ny) (cell_index d dh t)
                                     \<and> fst (cell_index d dh t) = int z) (u_mem_sel_m (frs ! f))))"
    using grid by auto
  then have "int (card (resid ` {t \<in> set (u_mem_sel_m (frs ! f)). fst (cell_index d dh t) = int z}))
       = spec_residue_count (nat nz, nat nx, nat ny) d dh (u_mem_sel_m (frs ! f)) z"
    unfolding spec_residue_count_def by (simp only: length_remdups_card_conv)
  with c1 show ?thesis by simp
qed

theorem residue_count_distinct_witness:
  "mp_init [] 4 4 ''PC'' ''PC OL'' = Inr ex_self0 \<and>
   Get_info ex_self0 (4, 4, 4) [ex_frame, ex_frame2] = Inr ex_self \<and>
   self_nz ex_self = Some 4 \<and> self_nx ex_self = Some 3 \<and> self_ny ex_self = Some 3 \<and>
   0 < length [ex_frame, ex_frame2] \<and> int 1 < 4 \<and>
   list_all (\<lambda>t. in_grid (4, 3, 3) (cell_index 4 4 t)) (u_mem_sel_m ex_frame) \<and>
   length (filter (\<lambda>t. fst (cell_index 4 4 t) = 1) (u_mem_sel_m ex_frame)) = 2 \<and>
   spec_residue_count (4, 3, 3) 4 4 (u_mem_sel_m ex_frame) 1 = 1 \<and>
   self_resid_array ex_self ! 0 ! 1 = 1"
proof -
  have d: "self_nz ex_self = Some 4" "self_nx ex_self = Some 3" "self_ny ex_self = Some 3"
    by code_simp+
  have f: "0 < length [ex_frame, ex_frame2]" by simp
  have z: "int 1 < 4" by simp
  have g: "list_all (\<lambda>t. in_grid (4, 3, 3) (cell_index 4 4 t)) (u_mem_sel_m ex_frame)"
    by code_simp
  then have g': "\<forall>t\<in>set (u_mem_sel_m ([ex_frame, ex_frame2] ! 0)).
                  in_grid (nat 4, nat 3, nat 3) (cell_index 4 4 t)"
    by (simp add: list_all_iff)
  have two: "length (filter (\<lambda>t. fst (cell_index 4 4 t) = 1) (u_mem_sel_m ex_frame)) = 2"
    by code_simp
  have sp: "spec_residue_count (4, 3, 3) 4 4 (u_mem_sel_m ex_frame) 1 = 1"
    by code_simp
  from residue_count_distinct[OF ex_init ex_run d f z g']
  have "self_resid_array ex_self ! 0 ! 1
           = spec_residue_count (4, 3, 3) 4 4 (u_mem_sel_m ex_frame) 1"
    by simp
  with sp have c: "self_resid_array ex_self ! 0 ! 1 = 1" by simp
  show ?thesis by (intro conjI ex_init ex_run d f z g two sp c)
qed

theorem residue_count_counterexample:
  "Get_info ex_self0 (4, 4, 4) [ex_frame_side] = Inr ex_side \<and>
   self_sel_m ex_self0 \<noteq> self_sel_m_a ex_self0 \<and>
   u_mem_sel_m ex_frame_side = [ex_atom_side] \<and>
   cell_index 4 4 ex_atom_side = (1, 0, 25) \<and>
   \<not> in_grid (4, 3, 3) (cell_index 4 4 ex_atom_side) \<and>
   spec_residue_count (4, 3, 3) 4 4 (u_mem_sel_m ex_frame_side) 1 = 0 \<and>
   self_resid_array ex_side ! 0 ! 1 = 1 \<and>
   self_resid_array ex_side ! 0 ! 1
     \<noteq> spec_residue_count (4, 3, 3) 4 4 (u_mem_sel_m ex_frame_side) 1"
proof -
  have s: "self_sel_m ex_self0 \<noteq> self_sel_m_a ex_self0" by code_simp
  have a: "u_mem_sel_m ex_frame_side = [ex_atom_side]" by (simp add: ex_frame_side_def)
  have c: "cell_index 4 4 ex_atom_side = (1, 0, 25)" by code_simp
  have g: "\<not> in_grid (4, 3, 3) (cell_index 4 4 ex_atom_side)" by code_simp
  have sp: "spec_residue_count (4, 3, 3) 4 4 (u_mem_sel_m ex_frame_side) 1 = 0" by code_simp
  have r: "self_resid_array ex_side ! 0 ! 1 = 1" by code_simp
  have n: "self_resid_array ex_side ! 0 ! 1
     \<noteq> spec_residue_count (4, 3, 3) 4 4 (u_mem_sel_m ex_frame_side) 1"
    unfolding sp r by simp
  show ?thesis by (intro conjI ex_side_run s a c g sp r n)
qed

text \<open>
  C10. The failing input: with selections that differ (the default), a head-subset atom of
  residue 7 whose x index 25 is beyond the grid, followed by an atom of the same residue
  inside the grid, both in slab 1. The residue is registered for the slab but in no x bin.
\<close>

theorem residue_zx_sum_failing_input:
  "Get_info ex_self0 (4, 4, 4) [ex_frame_x] = Inr ex_x \<and>
   self_sel_m ex_self0 \<noteq> self_sel_m_a ex_self0 \<and>
   u_mem_sel_m ex_frame_x = [ex_atom_x, ex_atom_x2] \<and>
   cell_index 4 4 ex_atom_x = (1, 25, 0) \<and> cell_index 4 4 ex_atom_x2 = (1, 0, 0) \<and>
   self_resid_array ex_x ! 0 ! 1 = 1 \<and>
   self_resid_array_zx ex_x ! 0 ! 1 = [0, 0, 0] \<and>
   sum_list (self_resid_array_zx ex_x ! 0 ! 1) \<noteq> self_resid_array ex_x ! 0 ! 1"
proof -
  have s: "self_sel_m ex_self0 \<noteq> self_sel_m_a ex_self0" by code_simp
  have a: "u_mem_sel_m ex_frame_x = [ex_atom_x, ex_atom_x2]" by (simp add: ex_frame_x_def)
  have c: "cell_index 4 4 ex_atom_x = (1, 25, 0)" "cell_index 4 4 ex_atom_x2 = (1, 0, 0)"
    by code_simp+
  have r: "self_resid_array ex_x ! 0 ! 1 = 1" by code_simp
  have zx: "self_resid_array_zx ex_x ! 0 ! 1 = [0, 0, 0]" by code_simp
  have n: "sum_list (self_resid_array_zx ex_x ! 0 ! 1) \<noteq> self_resid_array ex_x ! 0 ! 1"
    unfolding r zx by simp
  show ?thesis by (intro conjI ex_x_run s a c r zx n)
qed

end
